theory Spec2Isabelle
  imports Main "HOL-Library.List_Lexorder"
begin

section \<open>JavaScript strings\<close>

text \<open>
  A JavaScript string is a sequence of UTF-16 code units and \<open>length\<close> counts code
  units. The comment writer handles code units far beyond Latin-1 (the zero-width
  joiner, the irregular spaces), so a string is a list of code units; \<open>str\<close> embeds
  an ASCII literal.
\<close>

type_synonym jstring = "nat list"

definition str :: "string \<Rightarrow> jstring" where
  "str s = map of_char s"

definition dquote :: jstring where
  "dquote = [34]"

text \<open>\<open>s.includes(c)\<close> for a one-character needle.\<close>

definition includesChar :: "jstring \<Rightarrow> string \<Rightarrow> bool" where
  "includesChar s c = (set (str c) \<subseteq> set s)"

text \<open>\<open>s.startsWith(p)\<close>.\<close>

definition startsWith :: "jstring \<Rightarrow> jstring \<Rightarrow> bool" where
  "startsWith s p = (take (length p) s = p)"

text \<open>\<open>xs.join(sep)\<close>.\<close>

fun join :: "jstring \<Rightarrow> jstring list \<Rightarrow> jstring" where
  "join sep [] = []"
| "join sep [x] = x"
| "join sep (x # y # ys) = x @ sep @ join sep (y # ys)"

text \<open>
  \<open>s.split(' ')\<close>: the pieces between single separator characters; a string without
  the separator (the empty string too) gives one piece.
\<close>

fun split :: "nat \<Rightarrow> jstring \<Rightarrow> jstring list" where
  "split sep [] = [[]]"
| "split sep (c # cs) =
     (if c = sep then [] # split sep cs
      else (case split sep cs of
              [] \<Rightarrow> [[c]]
            | l # ls \<Rightarrow> (c # l) # ls))"

text \<open>
  \<open>s.split(/\r?\n/g)\<close>: a separator is a line feed, together with the carriage
  return that stands right before it.
\<close>

fun splitLines :: "jstring \<Rightarrow> jstring list" where
  "splitLines [] = [[]]"
| "splitLines (c # cs) =
     (if c = 13 \<and> (case cs of [] \<Rightarrow> False | d # _ \<Rightarrow> d = 10) then [] # splitLines (tl cs)
      else if c = 10 then [] # splitLines cs
      else (case splitLines cs of
              [] \<Rightarrow> [[c]]
            | l # ls \<Rightarrow> (c # l) # ls))"

text \<open>
  \<open>s.trim()\<close> removes white space and line terminators (ECMAScript's WhiteSpace and
  LineTerminator productions) from both ends.
\<close>

definition isWhiteSpace :: "nat \<Rightarrow> bool" where
  "isWhiteSpace c =
     (c \<in> set [0x09, 0x0A, 0x0B, 0x0C, 0x0D, 0x20, 0xA0, 0x1680, 0x2028, 0x2029, 0x202F,
                0x205F, 0x3000, 0xFEFF]
      \<or> (0x2000 \<le> c \<and> c \<le> 0x200A))"

definition trim :: "jstring \<Rightarrow> jstring" where
  "trim s = rev (dropWhile isWhiteSpace (rev (dropWhile isWhiteSpace s)))"

section \<open>Effects: the output stream, exceptions, mutable fields\<close>

text \<open>
  The mutable state of one run: the text written so far, the indent counter of
  \<open>IndentedTextWriter\<close>, the set \<open>seenSchemaRefs\<close> of \<open>App\<close>, and the array
  \<open>writtenTopLevelResourceNames\<close> that the closures of \<open>writeResources\<close> push to.
  An exception leaves every mutation made before it in place, so a computation returns
  its outcome together with the state it reached.
\<close>

record world =
  out :: jstring
  indent :: int
  seenSchemaRefs :: "jstring set"
  writtenTopLevelResourceNames :: "jstring list"

datatype error = Error jstring | TypeError jstring | RangeError jstring

text \<open>
  \<open>OutOfFuel\<close> is the outcome of a recursion cut off by its fuel; only the stub-value
  generator can produce it.
\<close>

datatype 'a outcome = Return 'a | Throw error | OutOfFuel

type_synonym 'a js = "world \<Rightarrow> 'a outcome \<times> world"

type_synonym TypescriptWriterCallback = "unit js"

definition js_return :: "'a \<Rightarrow> 'a js" where
  "js_return x = (\<lambda>s. (Return x, s))"

definition js_throw :: "error \<Rightarrow> 'a js" where
  "js_throw e = (\<lambda>s. (Throw e, s))"

definition js_bind :: "'a js \<Rightarrow> ('a \<Rightarrow> 'b js) \<Rightarrow> 'b js" where
  "js_bind f g = (\<lambda>s. case f s of
                       (Return x, s') \<Rightarrow> g x s'
                     | (Throw e, s') \<Rightarrow> (Throw e, s')
                     | (OutOfFuel, s') \<Rightarrow> (OutOfFuel, s'))"

definition js_seq :: "unit js \<Rightarrow> 'b js \<Rightarrow> 'b js" where
  "js_seq f g = js_bind f (\<lambda>_. g)"

text \<open>A statement list.\<close>

fun js_block :: "unit js list \<Rightarrow> unit js" where
  "js_block [] = js_return ()"
| "js_block (f # fs) = js_seq f (js_block fs)"

text \<open>\<open>if (c) stmt\<close> and \<open>c && stmt\<close>.\<close>

definition js_when :: "bool \<Rightarrow> unit js \<Rightarrow> unit js" where
  "js_when c f = (if c then f else js_return ())"

text \<open>A value that may be an exception, evaluated before the statement that uses it.\<close>

definition js_lift :: "error + 'a \<Rightarrow> 'a js" where
  "js_lift r = (case r of Inl e \<Rightarrow> js_throw e | Inr x \<Rightarrow> js_return x)"

text \<open>
  \<open>checkExists\<close> of utils.ts, a file that is not among the sources; its tests
  (test/utils.spec.ts) fix what is modelled here: it returns a defined value and throws
  on \<open>undefined\<close>.
\<close>

definition checkExists :: "'a option \<Rightarrow> error + 'a" where
  "checkExists v =
     (case v of
        None \<Rightarrow> Inl (Error (str ''Expected value to be defined, but got undefined''))
      | Some x \<Rightarrow> Inr x)"

section \<open>IndentedTextWriter\<close>

text \<open>
  The class is built with its defaults everywhere in app.ts: the new line is a line
  feed, the tab string four spaces. Its methods \<open>write\<close>, \<open>writeLine\<close> and
  \<open>writeNewLine\<close> are \<open>iwrite\<close>, \<open>iwriteLine\<close> and \<open>iwriteNewLine\<close> here, apart
  from the methods of the same names of \<open>TypescriptTextWriter\<close>.
\<close>

definition newLineString :: jstring where
  "newLineString = [10]"

definition tabString :: jstring where
  "tabString = str ''    ''"

definition iwrite :: "jstring \<Rightarrow> unit js" where
  "iwrite chunk = (\<lambda>s. (Return (), s\<lparr>out := out s @ chunk\<rparr>))"

text \<open>
  \<open>Array(this.indent + 1).join(this.tabString)\<close>: \<open>indent\<close> copies of the tab string;
  the empty string at \<open>indent = -1\<close>; below that \<open>Array\<close> throws a RangeError.
\<close>

definition indentation :: "int \<Rightarrow> error + jstring" where
  "indentation i =
     (if i + 1 < 0 then Inl (RangeError (str ''Invalid array length''))
      else Inr (concat (replicate (nat i) tabString)))"

definition startIndentedLine :: "jstring \<Rightarrow> unit js" where
  "startIndentedLine chunk =
     (\<lambda>s. js_bind (js_lift (indentation (indent s))) (\<lambda>p. iwrite (p @ chunk)) s)"

definition endIndentedLine :: "jstring \<Rightarrow> unit js" where
  "endIndentedLine chunk =
     (\<lambda>s. js_bind (js_lift (indentation (indent s))) (\<lambda>p. iwrite (chunk @ p)) s)"

definition iwriteLine :: "jstring \<Rightarrow> unit js" where
  "iwriteLine chunk = startIndentedLine (chunk @ newLineString)"

definition iwriteNewLine :: "jstring \<Rightarrow> unit js" where
  "iwriteNewLine chunk = endIndentedLine (chunk @ newLineString)"

text \<open>\<open>this.writer.indent++\<close> and \<open>this.writer.indent--\<close>.\<close>

definition indentInc :: "unit js" where
  "indentInc = (\<lambda>s. (Return (), s\<lparr>indent := indent s + 1\<rparr>))"

definition indentDec :: "unit js" where
  "indentDec = (\<lambda>s. (Return (), s\<lparr>indent := indent s - 1\<rparr>))"

section \<open>The schema graph\<close>

text \<open>
  A \<open>JsonSchema\<close> object with the fields app.ts reads (\<open>type\<close>, \<open>$ref\<close>,
  \<open>repeated\<close>, \<open>required\<close>, \<open>description\<close>, \<open>items\<close>, \<open>properties\<close>,
  \<open>additionalProperties\<close>); an absent field is \<open>None\<close>. A
  \<open>Record<string, JsonSchema>\<close> that is iterated is a list of entries in iteration
  order; the registry, which is only looked up by name, is a map. A lookup finds own
  keys only: names of members that every JavaScript object inherits are left aside.
\<close>

datatype JsonSchema = JsonSchema
  (schema_type: "jstring option")
  (schema_ref: "jstring option")
  (schema_repeated: "bool option")
  (schema_required: "bool option")
  (schema_description: "jstring option")
  (schema_items: "JsonSchema option")
  (schema_properties: "(jstring \<times> JsonSchema) list option")
  (schema_additionalProperties: "JsonSchema option")

type_synonym Schemas = "jstring \<rightharpoonup> JsonSchema"

text \<open>An object \<open>{$ref?: string}\<close>, the \<open>request\<close> and \<open>response\<close> of a method.\<close>

type_synonym SchemaRef = "jstring option"

record RestMethod =
  method_id :: "jstring option"
  method_description :: "jstring option"
  method_request :: "SchemaRef option"
  method_response :: "SchemaRef option"
  method_parameters :: "(jstring \<times> JsonSchema) list option"

datatype RestResource = RestResource
  (resource_methods: "(jstring \<times> RestMethod) list option")
  (resource_resources: "(jstring \<times> RestResource) list option")

section \<open>TypescriptTextWriter\<close>

text \<open>
  The writer's constructor arguments and the imports of app.ts that are not among the
  sources. \<open>includesBannedType\<close> stands for the regular-expression test
  \<open>\b<bannedType>\b\<close> over the configured \<open>bannedTypes\<close>; \<open>hasPrefixI\<close> (tslint.ts),
  \<open>getResourceTypeName\<close> (utils.ts) and \<open>sortObject\<close> (the deep-sort-object package)
  are taken as they are imported.

  A callback \<open>(writer: TypescriptTextWriter) => void\<close> is a computation on the state:
  the writer it is handed is always the one that calls it. The method \<open>write\<close> is
  \<open>twrite\<close> here and the method \<open>method\<close> is \<open>method_signature\<close>, both names being
  taken in Isabelle.
\<close>

record env =
  maxLineLength :: int
  includesBannedType :: "jstring \<Rightarrow> bool"
  hasPrefixI :: "jstring \<Rightarrow> bool"
  getResourceTypeName :: "jstring \<Rightarrow> jstring"
  sortObject :: "(jstring \<times> JsonSchema) list \<Rightarrow> (jstring \<times> JsonSchema) list"

text \<open>A value of type \<open>string | TypescriptWriterCallback\<close>.\<close>

datatype StringOrCallback = Str jstring | Callback TypescriptWriterCallback

definition formatPropertyName :: "jstring \<Rightarrow> jstring" where
  "formatPropertyName name =
     (if includesChar name ''.'' \<or> includesChar name ''-'' \<or> includesChar name ''@''
      then dquote @ name @ dquote else name)"

definition ignoreBannedType :: jstring where
  "ignoreBannedType = str ''// tslint:disable-next-line:ban-types''"

definition braces :: "jstring \<Rightarrow> TypescriptWriterCallback \<Rightarrow> unit js" where
  "braces txt context =
     js_block [iwriteLine (txt @ str '' {''), indentInc, context, indentDec,
               iwriteLine (str ''}'')]"

definition referenceTypes :: "jstring \<Rightarrow> unit js" where
  "referenceTypes ty = iwriteLine (str ''/// <reference types='' @ dquote @ ty @ dquote @ str '' />'')"

definition namespace :: "jstring \<Rightarrow> TypescriptWriterCallback \<Rightarrow> unit js" where
  "namespace name context = braces (str ''namespace '' @ name) context"

definition declareNamespace :: "jstring \<Rightarrow> TypescriptWriterCallback \<Rightarrow> unit js" where
  "declareNamespace name context =
     js_seq (iwriteLine []) (braces (str ''declare namespace '' @ name) context)"

definition interface :: "env \<Rightarrow> jstring \<Rightarrow> TypescriptWriterCallback \<Rightarrow> bool \<Rightarrow> unit js" where
  "interface cfg name context emptyInterface =
     (let ignoreRules = (if hasPrefixI cfg name then [str ''interface-name''] else [])
                      @ (if emptyInterface then [str ''no-empty-interface''] else [])
      in js_seq
           (js_when (length ignoreRules > 0)
              (iwriteLine (str ''// tslint:disable-next-line:'' @ join (str '' '') ignoreRules)))
           (braces (str ''interface '' @ name) context))"

definition endLine :: "jstring \<Rightarrow> unit js" where
  "endLine chunk = js_seq (iwrite chunk) (iwrite newLineString)"

definition anonymousType :: "TypescriptWriterCallback \<Rightarrow> unit js" where
  "anonymousType context =
     js_block [endLine (str ''{''), indentInc, context, indentDec, startIndentedLine (str ''}'')]"

definition newLine :: "jstring \<Rightarrow> unit js" where
  "newLine chunk = startIndentedLine chunk"

definition scope :: "TypescriptWriterCallback \<Rightarrow> jstring \<Rightarrow> jstring \<Rightarrow> unit js" where
  "scope context startTag endTag =
     js_block [iwrite startTag, iwrite newLineString, indentInc, context, indentDec,
               startIndentedLine endTag]"

definition writeLine :: "jstring \<Rightarrow> unit js" where
  "writeLine chunk = iwriteLine chunk"

definition writeNewLine :: "jstring \<Rightarrow> unit js" where
  "writeNewLine chunk = iwriteNewLine chunk"

definition twrite :: "StringOrCallback \<Rightarrow> unit js" where
  "twrite chunk = (case chunk of Str s \<Rightarrow> iwrite s | Callback f \<Rightarrow> f)"

definition property :: "env \<Rightarrow> jstring \<Rightarrow> StringOrCallback \<Rightarrow> bool \<Rightarrow> unit js" where
  "property cfg name ty required =
     (case ty of
        Callback f \<Rightarrow>
          js_block [startIndentedLine
                      (formatPropertyName name @ (if required then [] else str ''?'') @ str '': ''),
                    f, endLine (str '';'')]
      | Str t \<Rightarrow>
          js_seq (js_when (includesBannedType cfg t) (iwriteLine ignoreBannedType))
                 (iwriteLine (formatPropertyName name @ (if required then [] else str ''?'')
                              @ str '': '' @ t @ str '';'')))"

subsection \<open>comment\<close>

text \<open>
  Modelled from the spec: the constant \<open>zeroWidthJoinerCharacter\<close> of constants.ts,
  a file that is not among the sources. The spec has literal end-of-comment sequences
  "replaced with a zero-width-joined variant"; the character is U+200D.
\<close>

definition zeroWidthJoinerCharacter :: jstring where
  "zeroWidthJoinerCharacter = [0x200D]"

text \<open>\<open>text.replace(/\*\//g, `*${zeroWidthJoinerCharacter}/`)\<close>.\<close>

fun escapeCommentEnd :: "jstring \<Rightarrow> jstring" where
  "escapeCommentEnd (c # d # cs) =
     (if c = 42 \<and> d = 47 then [42] @ zeroWidthJoinerCharacter @ [47] @ escapeCommentEnd cs
      else c # escapeCommentEnd (d # cs))"
| "escapeCommentEnd cs = cs"

text \<open>
  \<open>text.replace(/@(class|this|type(?:def)?|property)/g, `@${zeroWidthJoinerCharacter}$1`)\<close>:
  the joiner goes in right after an \<open>@\<close> that one of the tag names follows. The tag
  names hold no \<open>@\<close>, so copying the matched name one character at a time gives what
  the regular expression gives by skipping it.
\<close>

definition jsdocTags :: "jstring list" where
  "jsdocTags = [str ''class'', str ''this'', str ''type'', str ''property'']"

fun escapeJsdocTags :: "jstring \<Rightarrow> jstring" where
  "escapeJsdocTags [] = []"
| "escapeJsdocTags (c # cs) =
     (if c = 64 \<and> list_ex (startsWith cs) jsdocTags
      then (c # zeroWidthJoinerCharacter) @ escapeJsdocTags cs
      else c # escapeJsdocTags cs)"

definition irregularSpaces :: "nat list" where
  "irregularSpaces =
     [0x000B, 0x000C, 0x00A0, 0x0085, 0x1680, 0x180E, 0xFEFF, 0x2000, 0x2001, 0x2002, 0x2003,
      0x2004, 0x2005, 0x2006, 0x2007, 0x2008, 0x2009, 0x200A, 0x200B, 0x2028, 0x2029, 0x202F,
      0x205F, 0x3000]"

text \<open>\<open>line.replace(irregularSpace, ' ')\<close> for one global single-character pattern.\<close>

definition replaceChar :: "nat \<Rightarrow> jstring \<Rightarrow> jstring" where
  "replaceChar sp line = map (\<lambda>c. if c = sp then 32 else c) line"

definition jsdocCommentStart :: jstring where
  "jsdocCommentStart = str ''/**''"

definition jsdocCommentEnd :: jstring where
  "jsdocCommentEnd = str ''*/''"

text \<open>
  The inner loop \<open>for (const word of words)\<close> of \<open>comment\<close>, on the variables
  \<open>lines\<close> and \<open>newLine\<close>.
\<close>

fun packWords :: "int \<Rightarrow> jstring list \<Rightarrow> jstring list \<Rightarrow> jstring \<Rightarrow> jstring list \<times> jstring" where
  "packWords maxLen [] lines nl = (lines, nl)"
| "packWords maxLen (word # words) lines nl =
     (if int (length nl) + int (length (str '' '')) + int (length word) > maxLen
      then packWords maxLen words (lines @ [nl]) word
      else if nl = [] then packWords maxLen words lines word
      else packWords maxLen words lines (nl @ str '' '' @ word))"

text \<open>The outer loop \<open>for (const line of text.trim().split(/\r?\n/g))\<close>.\<close>

fun wrapLines :: "int \<Rightarrow> jstring list \<Rightarrow> jstring list \<Rightarrow> jstring list" where
  "wrapLines maxLen [] lines = lines"
| "wrapLines maxLen (line # rest) lines =
     (if int (length line) > maxLen
      then (case packWords maxLen (split 32 line) lines [] of
              (lines', nl) \<Rightarrow> wrapLines maxLen rest (lines' @ [nl]))
      else wrapLines maxLen rest (lines @ [line]))"

text \<open>
  The lines of a comment as \<open>comment\<close> has them when it starts to write: escaped,
  wrapped to the width \<open>maxLen\<close>, trimmed, irregular spaces replaced.
\<close>

definition commentLines :: "int \<Rightarrow> jstring \<Rightarrow> jstring list" where
  "commentLines maxLen txt =
     (let t = escapeJsdocTags (escapeCommentEnd txt);
          lines = wrapLines maxLen (splitLines (trim t)) [];
          lines = map trim lines
      in foldl (\<lambda>ls sp. map (replaceChar sp) ls) lines irregularSpaces)"

text \<open>
  The local \<open>maxLineLength\<close> of \<open>comment\<close>: the configured width less the indent and
  the comment delimiters.
\<close>

definition commentWidth :: "env \<Rightarrow> world \<Rightarrow> int" where
  "commentWidth cfg s =
     maxLineLength cfg - indent s * int (length tabString)
       - int (length (jsdocCommentStart @ str ''  '' @ jsdocCommentEnd))"

text \<open>
  \<open>Math.max(...lines.map(x => x.length)) > maxLineLength\<close>: some line is longer than
  the width (the maximum of no lines is \<open>-Infinity\<close>).
\<close>

definition longestLineExceeds :: "jstring list \<Rightarrow> int \<Rightarrow> bool" where
  "longestLineExceeds lines maxLen = list_ex (\<lambda>x. int (length x) > maxLen) lines"

text \<open>The comment itself: one line, or a block with one line per wrapped line.\<close>

definition writeCommentBlock :: "jstring list \<Rightarrow> unit js" where
  "writeCommentBlock lines =
     (if length lines = 1
      then iwriteLine (jsdocCommentStart @ str '' '' @ hd lines @ str '' '' @ jsdocCommentEnd)
      else if length lines > 1
      then js_block
             ([iwriteLine jsdocCommentStart]
              @ map (\<lambda>line. if line \<noteq> [] then iwriteLine (str '' * '' @ line)
                            else iwriteLine (str '' *'')) lines
              @ [iwriteLine (str '' '' @ jsdocCommentEnd)])
      else js_return ())"

definition comment :: "env \<Rightarrow> jstring \<Rightarrow> unit js" where
  "comment cfg txt =
     (\<lambda>s. if txt = [] \<or> trim txt = [] then (Return (), s)
          else
            let maxLen = commentWidth cfg s;
                lines = commentLines maxLen txt;
                long = longestLineExceeds lines maxLen
            in js_block
                 [js_when long (iwriteLine (str ''// tslint:disable:max-line-length'')),
                  writeCommentBlock lines,
                  js_when long (iwriteLine (str ''// tslint:enable:max-line-length''))] s)"

subsection \<open>method (here \<open>method_signature\<close>)\<close>

record methodParameter =
  p_parameter :: jstring
  p_type :: StringOrCallback
  p_required :: bool

text \<open>
  The body of \<open>_.forEach(parameters, (parameter, index) => ...)\<close>; \<open>n\<close> is
  \<open>parameters.length\<close>.
\<close>

fun writeParameters :: "env \<Rightarrow> bool \<Rightarrow> nat \<Rightarrow> nat \<Rightarrow> methodParameter list \<Rightarrow> unit js" where
  "writeParameters cfg singleLine n index [] = js_return ()"
| "writeParameters cfg singleLine n index (p # ps) =
     js_block
       [js_when (case p_type p of Str t \<Rightarrow> includesBannedType cfg t | Callback _ \<Rightarrow> False)
          (iwriteNewLine ignoreBannedType),
        twrite (Str (p_parameter p @ (if p_required p then [] else str ''?'') @ str '': '')),
        twrite (p_type p),
        js_when (index + 1 < n)
          (js_seq (twrite (Str (str '','')))
                  (if singleLine then twrite (Str (str '' '')) else writeNewLine [])),
        writeParameters cfg singleLine n (index + 1) ps]"

definition method_signature :: "env \<Rightarrow> jstring \<Rightarrow> methodParameter list \<Rightarrow> jstring \<Rightarrow> bool \<Rightarrow> unit js" where
  "method_signature cfg name parameters returnType singleLine =
     (let ignoreBannedReturnType = includesBannedType cfg returnType
      in js_block
           [js_when (singleLine \<and> ignoreBannedReturnType) (iwriteLine ignoreBannedType),
            startIndentedLine (name @ str ''(''),
            writeParameters cfg singleLine (length parameters) 0 parameters,
            js_when (\<not> singleLine \<and> ignoreBannedReturnType)
              (js_seq (writeNewLine []) (writeNewLine ignoreBannedType)),
            iwrite (str ''): '' @ returnType @ str '';''),
            endLine []])"

text \<open>JavaScript truthiness of an optional string and of an optional boolean.\<close>

definition truthy :: "jstring option \<Rightarrow> bool" where
  "truthy v = (case v of None \<Rightarrow> False | Some x \<Rightarrow> x \<noteq> [])"

definition truthyBool :: "bool option \<Rightarrow> bool" where
  "truthyBool v = (case v of None \<Rightarrow> False | Some b \<Rightarrow> b)"

section \<open>The type translator\<close>

definition typesMap :: "(jstring \<times> jstring) list" where
  "typesMap =
     [(str ''integer'', str ''number''),
      (str ''object'', str ''any''),
      (str ''any'', str ''any''),
      (str ''string'', str ''string'')]"

definition getName :: "jstring option \<Rightarrow> jstring option" where
  "getName path =
     (case path of
        None \<Rightarrow> None
      | Some p \<Rightarrow>
          if p = [] then None
          else (case split 46 p of [] \<Rightarrow> None | parts \<Rightarrow> Some (last parts)))"

definition formatComment :: "jstring \<Rightarrow> jstring" where
  "formatComment c = (if c = [] then [] else c)"

text \<open>\<open>_.isEmpty(schema.properties) && !schema.additionalProperties\<close>.\<close>

definition isEmptySchema :: "JsonSchema \<Rightarrow> bool" where
  "isEmptySchema schema =
     ((case schema_properties schema of None \<Rightarrow> True | Some ps \<Rightarrow> ps = [])
      \<and> schema_additionalProperties schema = None)"

text \<open>The branch \<open>else if (type.type)\<close> of \<open>getType\<close>.\<close>

definition scalarType :: "jstring \<Rightarrow> bool option \<Rightarrow> jstring" where
  "scalarType t repeated =
     (let tsType = (case map_of typesMap t of Some v \<Rightarrow> v | None \<Rightarrow> t)
      in if truthyBool repeated then tsType @ str '' | '' @ tsType @ str ''[]'' else tsType)"

text \<open>
  The branch \<open>else if (type.$ref)\<close> of \<open>getType\<close>. \<open>isEmptySchema\<close> reads a field of
  its argument, so a name that the registry lacks raises a TypeError.
\<close>

definition referenceType :: "jstring \<Rightarrow> Schemas \<Rightarrow> error + StringOrCallback" where
  "referenceType r schemas =
     (case schemas r of
        None \<Rightarrow> Inl (TypeError (str ''Cannot read properties of undefined (reading 'properties')''))
      | Some referencedType \<Rightarrow>
          if isEmptySchema referencedType then Inr (Str (str ''any'')) else Inr (Str r))"

text \<open>
  \<open>getType\<close>. A callback it returns calls \<open>getType\<close> on the members when it runs, so
  an error of a member is raised inside the callback. The last branch of the array
  case (\<open>return '[]'\<close>) needs a child that is neither a string nor a function, which
  \<open>getType\<close> never returns; the two constructors of \<open>StringOrCallback\<close> leave it out.
  \<open>writeTypeProperties\<close> is the loop \<open>_.forEach(type.properties, ...)\<close>.
\<close>

function getType :: "env \<Rightarrow> JsonSchema \<Rightarrow> Schemas \<Rightarrow> error + StringOrCallback"
  and writeTypeProperties :: "env \<Rightarrow> (jstring \<times> JsonSchema) list \<Rightarrow> Schemas \<Rightarrow> unit js"
where
  "getType cfg (JsonSchema ty rf rep req desc its props addl) schemas =
     (if ty = Some (str ''array'') then
        (case checkExists its of
           Inl e \<Rightarrow> Inl e
         | Inr items \<Rightarrow>
             (case getType cfg items schemas of
                Inl e \<Rightarrow> Inl e
              | Inr (Str child) \<Rightarrow> Inr (Str (child @ str ''[]''))
              | Inr (Callback child) \<Rightarrow>
                  Inr (Callback (js_block [twrite (Str (str ''Array<'')), child,
                                           twrite (Str (str ''>''))]))))
      else if ty = Some (str ''object'') \<and> props \<noteq> None then
        Inr (Callback (anonymousType
          (js_seq (case props of None \<Rightarrow> js_return ()
                   | Some ps \<Rightarrow> writeTypeProperties cfg ps schemas)
                  (case addl of
                     None \<Rightarrow> js_return ()
                   | Some ap \<Rightarrow>
                       js_bind (js_lift (getType cfg ap schemas))
                         (\<lambda>t. property cfg (str ''[key: string]'') t True)))))
      else if ty = Some (str ''object'') \<and> addl \<noteq> None then
        Inr (Callback
          (js_bind (js_lift (case checkExists addl of
                               Inl e \<Rightarrow> Inl e
                             | Inr ap \<Rightarrow> getType cfg ap schemas))
             (\<lambda>child. js_block [twrite (Str (str ''{ [P in string]: '')), twrite child,
                                twrite (Str (str '' }''))])))
      else if truthy ty then
        (case ty of None \<Rightarrow> Inl (Error []) | Some t \<Rightarrow> Inr (Str (scalarType t rep)))
      else if truthy rf then
        (case rf of None \<Rightarrow> Inl (Error []) | Some r \<Rightarrow> referenceType r schemas)
      else Inl (Error []))"
| "writeTypeProperties cfg [] schemas = js_return ()"
| "writeTypeProperties cfg ((propertyName, prop) # rest) schemas =
     js_block
       [(case schema_description prop of
           None \<Rightarrow> js_return ()
         | Some d \<Rightarrow> js_when (d \<noteq> []) (comment cfg (formatComment d))),
        js_bind (js_lift (getType cfg prop schemas))
          (\<lambda>t. property cfg propertyName t (truthyBool (schema_required prop))),
        writeTypeProperties cfg rest schemas]"
  by pat_completeness auto
termination
  by (relation "measure (\<lambda>x. case x of
                   Inl (cfg, t, schemas) \<Rightarrow> size t
                 | Inr (cfg, ps, schemas) \<Rightarrow> size_list (size_prod (\<lambda>_. 0) size) ps)")
     (auto simp: checkExists_def split: option.splits)

definition getMethodReturn :: "RestMethod \<Rightarrow> Schemas \<Rightarrow> error + jstring" where
  "getMethodReturn m schemas =
     (let name = (if schemas (str ''Request'') \<noteq> None then str ''client.Request''
                  else str ''Request'')
      in case method_response m of
           Some response \<Rightarrow>
             (case checkExists response of
                Inl e \<Rightarrow> Inl e
              | Inr r \<Rightarrow>
                  (case schemas r of
                     None \<Rightarrow> Inr (name @ str ''<{}>'')
                   | Some schema \<Rightarrow>
                       if schema_properties schema \<noteq> None \<and> schema_properties schema \<noteq> Some []
                       then Inr (name @ str ''<'' @ r @ str ''>'')
                       else Inr (name @ str ''<{}>'')))
         | None \<Rightarrow> Inr (name @ str ''<void>''))"

section \<open>The resource and method walker\<close>

text \<open>The loop \<open>_.forEach(parameters, (data, key) => ...)\<close> of the request callback.\<close>

fun writeRequestParameters :: "env \<Rightarrow> (jstring \<times> JsonSchema) list \<Rightarrow> Schemas \<Rightarrow> unit js" where
  "writeRequestParameters cfg [] schemas = js_return ()"
| "writeRequestParameters cfg ((key, data) # rest) schemas =
     js_block
       [(case schema_description data of
           None \<Rightarrow> js_return ()
         | Some d \<Rightarrow> js_when (d \<noteq> []) (comment cfg (formatComment d))),
        js_bind (js_lift (getType cfg data schemas))
          (\<lambda>t. property cfg key t (truthyBool (schema_required data))),
        writeRequestParameters cfg rest schemas]"

definition createRequestParameterWriterCallback ::
  "env \<Rightarrow> (jstring \<times> JsonSchema) list \<Rightarrow> Schemas \<Rightarrow> jstring option \<Rightarrow> TypescriptWriterCallback" where
  "createRequestParameterWriterCallback cfg parameters schemas rf =
     anonymousType
       (js_seq (writeRequestParameters cfg parameters schemas)
          (case rf of
             None \<Rightarrow> js_return ()
           | Some r \<Rightarrow>
               js_when (r \<noteq> [])
                 (js_seq (comment cfg (str ''Request body''))
                         (property cfg (str ''resource'') (Str r) True))))"

text \<open>
  The object spread \<open>{...a, ...b}\<close> on entry lists: the keys of \<open>a\<close> in their order,
  with the value \<open>b\<close> gives them where it has the key, then the keys only \<open>b\<close> has.
\<close>

definition spread :: "('k \<times> 'v) list \<Rightarrow> ('k \<times> 'v) list \<Rightarrow> ('k \<times> 'v) list" where
  "spread a b =
     map (\<lambda>(k, v). (k, case map_of b k of Some w \<Rightarrow> w | None \<Rightarrow> v)) a
     @ filter (\<lambda>(k, v). map_of a k = None) b"

text \<open>
  The callback of \<open>methods.forEach(([methodName, method]) => ...)\<close> in
  \<open>writeResources\<close>. The arguments of \<open>out.method\<close> are evaluated in order (the
  name, then the return type) before anything is written.
\<close>

definition writeMethod ::
  "env \<Rightarrow> (jstring \<times> JsonSchema) list \<Rightarrow> Schemas \<Rightarrow> jstring \<times> RestMethod \<Rightarrow> unit js" where
  "writeMethod cfg parameters schemas entry =
     (case entry of (methodName, m) \<Rightarrow>
        js_seq
          (case method_description m of
             None \<Rightarrow> js_return ()
           | Some d \<Rightarrow> js_when (d \<noteq> []) (comment cfg (formatComment d)))
          (let requestRef = (case method_request m of None \<Rightarrow> None | Some r \<Rightarrow> r);
               requestParameters =
                 sortObject cfg
                   (spread parameters (case method_parameters m of None \<Rightarrow> [] | Some ps \<Rightarrow> ps))
           in js_seq
                (js_when (map_of requestParameters (str ''resource'') = None \<or> \<not> truthy requestRef)
                   (js_bind (js_lift (checkExists (getName (Some methodName)))) (\<lambda>name.
                    js_bind (js_lift (getMethodReturn m schemas)) (\<lambda>returnType.
                      method_signature cfg (formatPropertyName name)
                        [\<lparr>p_parameter = str ''request'',
                          p_type = Callback (createRequestParameterWriterCallback cfg
                                               requestParameters schemas requestRef),
                          p_required = truthy requestRef\<rparr>]
                        returnType False))))
                (case requestRef of
                   None \<Rightarrow> js_return ()
                 | Some r \<Rightarrow>
                     js_when (r \<noteq> [])
                       (js_bind (js_lift (checkExists (getName (Some methodName)))) (\<lambda>name.
                        js_bind (js_lift (getMethodReturn m schemas)) (\<lambda>returnType.
                          method_signature cfg (formatPropertyName name)
                            [\<lparr>p_parameter = str ''request'',
                              p_type = Callback (createRequestParameterWriterCallback cfg
                                                   requestParameters schemas None),
                              p_required = True\<rparr>,
                             \<lparr>p_parameter = str ''body'', p_type = Str r, p_required = True\<rparr>]
                            returnType False))))))"

text \<open>
  \<open>allMethods.filter(([, method]) => checkExists(method.id).startsWith(`${namespace}.`))\<close>:
  the first method without an id raises.
\<close>

fun filterMethods :: "jstring \<Rightarrow> (jstring \<times> RestMethod) list \<Rightarrow> error + (jstring \<times> RestMethod) list" where
  "filterMethods ns [] = Inr []"
| "filterMethods ns ((methodName, m) # rest) =
     (case checkExists (method_id m) of
        Inl e \<Rightarrow> Inl e
      | Inr i \<Rightarrow>
          (case filterMethods ns rest of
             Inl e \<Rightarrow> Inl e
           | Inr kept \<Rightarrow> Inr (if startsWith i (ns @ str ''.'') then (methodName, m) # kept else kept)))"

text \<open>
  One activation of \<open>writeResources\<close> around its loop: the local array
  \<open>writtenTopLevelResourceNames\<close> starts empty, the closures of the loop push to it, and
  the activation returns \<open>_.uniq(writtenTopLevelResourceNames).sort()\<close>. The array of the
  calling activation is put back when this one ends.
\<close>

definition withWrittenNames :: "unit js \<Rightarrow> jstring list js" where
  "withWrittenNames body =
     (\<lambda>s. case body (s\<lparr>writtenTopLevelResourceNames := []\<rparr>) of
            (Return _, s') \<Rightarrow>
              (Return (sort (remdups (writtenTopLevelResourceNames s'))),
               s'\<lparr>writtenTopLevelResourceNames := writtenTopLevelResourceNames s\<rparr>)
          | (Throw e, s') \<Rightarrow>
              (Throw e, s'\<lparr>writtenTopLevelResourceNames := writtenTopLevelResourceNames s\<rparr>)
          | (OutOfFuel, s') \<Rightarrow>
              (OutOfFuel, s'\<lparr>writtenTopLevelResourceNames := writtenTopLevelResourceNames s\<rparr>))"

definition pushWrittenName :: "jstring \<Rightarrow> unit js" where
  "pushWrittenName name =
     (\<lambda>s. (Return (), s\<lparr>writtenTopLevelResourceNames := writtenTopLevelResourceNames s @ [name]\<rparr>))"

text \<open>\<open>_.forEach(resource.resources, (_, childResourceName) => ...)\<close>.\<close>

definition writeChildProperties :: "env \<Rightarrow> (jstring \<times> RestResource) list \<Rightarrow> unit js" where
  "writeChildProperties cfg children =
     js_block (map (\<lambda>(childResourceName, _).
                      property cfg childResourceName
                        (Str (getResourceTypeName cfg childResourceName)) True) children)"

text \<open>
  \<open>writeResourcesEach\<close> is the loop \<open>_.forEach(resources, (resource, resourceName) => ...)\<close>
  of \<open>writeResources\<close>; the early \<open>return\<close> of its callback goes on with the next
  resource.
\<close>

fun writeResourcesEach ::
  "env \<Rightarrow> (jstring \<times> RestResource) list \<Rightarrow> (jstring \<times> JsonSchema) list \<Rightarrow> Schemas \<Rightarrow> jstring
   \<Rightarrow> unit js" where
  "writeResourcesEach cfg [] parameters schemas ns = js_return ()"
| "writeResourcesEach cfg ((resourceName, RestResource ms rs) # rest) parameters schemas ns =
     js_seq
       (let resourceInterfaceName = getResourceTypeName cfg resourceName;
            allMethods = (case ms of None \<Rightarrow> [] | Some entries \<Rightarrow> entries)
        in js_seq
             (case rs of
                None \<Rightarrow> js_return ()
              | Some children \<Rightarrow>
                  js_bind (withWrittenNames (writeResourcesEach cfg children parameters schemas ns))
                    (\<lambda>_. js_return ()))
             (js_bind (js_lift (filterMethods ns allMethods)) (\<lambda>methods.
                let supposedToBeEmpty =
                      (length allMethods = 0
                       \<and> (case rs of None \<Rightarrow> True | Some children \<Rightarrow> length children = 0))
                in if \<not> supposedToBeEmpty \<and> length methods = 0 then js_return ()
                   else interface cfg resourceInterfaceName
                          (js_block
                             [pushWrittenName resourceName,
                              js_block (map (writeMethod cfg parameters schemas) methods),
                              (case rs of
                                 None \<Rightarrow> js_return ()
                               | Some children \<Rightarrow> writeChildProperties cfg children)])
                          False)))
       (writeResourcesEach cfg rest parameters schemas ns)"

definition writeResources ::
  "env \<Rightarrow> (jstring \<times> RestResource) list \<Rightarrow> (jstring \<times> JsonSchema) list \<Rightarrow> Schemas \<Rightarrow> jstring
   \<Rightarrow> jstring list js" where
  "writeResources cfg resources parameters schemas ns =
     withWrittenNames (writeResourcesEach cfg resources parameters schemas ns)"

section \<open>The stub-value generator\<close>

text \<open>
  The five methods \<open>writePropertyValue\<close>, \<open>writeArray\<close>, \<open>writeObject\<close>,
  \<open>writeSchemaRef\<close> and \<open>writeProperties\<close> call each other through the registry, and
  \<open>writeObject\<close> and \<open>writePropertyValue\<close> call each other without end on an object
  schema that has neither properties nor a value type. Each method body is a definition
  of its own that takes the methods it calls as arguments (named as in the source);
  the recursion then ties them together, every call taking one unit of fuel. Of the API
  description only \<open>schemas\<close> is read.
\<close>

record RestDescription =
  api_schemas :: "Schemas option"

definition seenAdd :: "jstring \<Rightarrow> unit js" where
  "seenAdd name = (\<lambda>s. (Return (), s\<lparr>seenSchemaRefs := insert name (seenSchemaRefs s)\<rparr>))"

definition seenDelete :: "jstring \<Rightarrow> unit js" where
  "seenDelete name = (\<lambda>s. (Return (), s\<lparr>seenSchemaRefs := seenSchemaRefs s - {name}\<rparr>))"

definition outOfFuel :: "unit js" where
  "outOfFuel = (\<lambda>s. (OutOfFuel, s))"

definition writePropertyValueBody ::
  "(JsonSchema \<Rightarrow> unit js) \<Rightarrow> (JsonSchema \<Rightarrow> unit js) \<Rightarrow> JsonSchema \<Rightarrow> unit js" where
  "writePropertyValueBody writeArray writeObject prop =
     (if schema_type prop = Some (str ''number'') \<or> schema_type prop = Some (str ''integer'')
      then twrite (Str (str ''42''))
      else if schema_type prop = Some (str ''boolean'') then twrite (Str (str ''true''))
      else if schema_type prop = Some (str ''string'')
      then twrite (Str (dquote @ str ''Test string'' @ dquote))
      else if schema_type prop = Some (str ''array'')
      then js_bind (js_lift (checkExists (schema_items prop))) writeArray
      else if schema_type prop = Some (str ''object'') then writeObject prop
      else if schema_type prop = Some (str ''any'') then twrite (Str (str ''42''))
      else js_throw (Error (str ''Unknown scalar type ''
                            @ (case schema_type prop of None \<Rightarrow> str ''undefined'' | Some t \<Rightarrow> t))))"

definition writeArrayBody ::
  "(jstring \<Rightarrow> unit js) \<Rightarrow> (JsonSchema \<Rightarrow> unit js) \<Rightarrow> JsonSchema \<Rightarrow> unit js" where
  "writeArrayBody writeSchemaRef writePropertyValue items =
     (\<lambda>s. let schemaName = schema_ref items
          in if truthy schemaName \<and> (case schemaName of None \<Rightarrow> False
                                      | Some n \<Rightarrow> n \<in> seenSchemaRefs s)
             then twrite (Str (str ''undefined'')) s
             else scope
                    (js_seq (newLine [])
                       (if truthy schemaName
                        then (case schemaName of None \<Rightarrow> js_return ()
                              | Some n \<Rightarrow> writeSchemaRef n)
                        else writePropertyValue items))
                    (str ''['') (str '']'') s)"

definition writeObjectBody ::
  "((jstring \<times> JsonSchema) list \<Rightarrow> unit js) \<Rightarrow> (jstring \<Rightarrow> unit js) \<Rightarrow> (JsonSchema \<Rightarrow> unit js)
   \<Rightarrow> JsonSchema \<Rightarrow> unit js" where
  "writeObjectBody writeProperties writeSchemaRef writePropertyValue obj =
     (\<lambda>s. let schemaName = (case schema_additionalProperties obj of
                              None \<Rightarrow> None
                            | Some ap \<Rightarrow> schema_ref ap)
          in if truthy schemaName \<and> (case schemaName of None \<Rightarrow> False
                                      | Some n \<Rightarrow> n \<in> seenSchemaRefs s)
             then twrite (Str (str ''undefined'')) s
             else (case schema_properties obj of
                     Some ps \<Rightarrow> scope (writeProperties ps) (str ''{'') (str ''}'') s
                   | None \<Rightarrow>
                       (case schema_additionalProperties obj of
                          Some ap \<Rightarrow>
                            scope
                              (js_seq (newLine (str ''A: ''))
                                 (if truthy schemaName
                                  then (case schemaName of None \<Rightarrow> js_return ()
                                        | Some n \<Rightarrow> writeSchemaRef n)
                                  else writePropertyValue ap))
                              (str ''{'') (str ''}'') s
                        | None \<Rightarrow> writePropertyValue obj s)))"

definition writeSchemaRefBody ::
  "(JsonSchema \<Rightarrow> unit js) \<Rightarrow> RestDescription \<Rightarrow> jstring \<Rightarrow> unit js" where
  "writeSchemaRefBody writeObject api schemaName =
     (\<lambda>s. if schemaName \<in> seenSchemaRefs s then twrite (Str (str ''undefined'')) s
          else js_bind (js_lift (checkExists (api_schemas api)))
                 (\<lambda>schemas.
                    case schemas schemaName of
                      None \<Rightarrow>
                        js_throw (Error (str ''Attempted to generate stub for unknown schema ''
                                         @ [39] @ schemaName @ [39]))
                    | Some schema \<Rightarrow>
                        js_block [seenAdd schemaName, writeObject schema,
                                  seenDelete schemaName]) s)"

fun writePropertiesBody ::
  "(JsonSchema \<Rightarrow> unit js) \<Rightarrow> (jstring \<Rightarrow> unit js) \<Rightarrow> (JsonSchema \<Rightarrow> unit js)
   \<Rightarrow> (jstring \<times> JsonSchema) list \<Rightarrow> unit js" where
  "writePropertiesBody writeObject writeSchemaRef writePropertyValue [] = js_return ()"
| "writePropertiesBody writeObject writeSchemaRef writePropertyValue ((name, parameter) # rest) =
     js_block
       [newLine (formatPropertyName name @ str '': ''),
        (if schema_type parameter = Some (str ''object'') then writeObject parameter
         else if truthy (schema_ref parameter)
         then (case schema_ref parameter of
                 None \<Rightarrow> js_return ()
               | Some r \<Rightarrow> writeSchemaRef r)
         else writePropertyValue parameter),
        endLine (str '',''),
        writePropertiesBody writeObject writeSchemaRef writePropertyValue rest]"

fun writePropertyValue :: "nat \<Rightarrow> RestDescription \<Rightarrow> JsonSchema \<Rightarrow> unit js"
  and writeArray :: "nat \<Rightarrow> RestDescription \<Rightarrow> JsonSchema \<Rightarrow> unit js"
  and writeObject :: "nat \<Rightarrow> RestDescription \<Rightarrow> JsonSchema \<Rightarrow> unit js"
  and writeSchemaRef :: "nat \<Rightarrow> RestDescription \<Rightarrow> jstring \<Rightarrow> unit js"
  and writeProperties :: "nat \<Rightarrow> RestDescription \<Rightarrow> (jstring \<times> JsonSchema) list \<Rightarrow> unit js"
where
  "writePropertyValue 0 api = (\<lambda>_. outOfFuel)"
| "writePropertyValue (Suc fuel) api =
     writePropertyValueBody (writeArray fuel api) (writeObject fuel api)"
| "writeArray 0 api = (\<lambda>_. outOfFuel)"
| "writeArray (Suc fuel) api =
     writeArrayBody (writeSchemaRef fuel api) (writePropertyValue fuel api)"
| "writeObject 0 api = (\<lambda>_. outOfFuel)"
| "writeObject (Suc fuel) api =
     writeObjectBody (writeProperties fuel api) (writeSchemaRef fuel api)
       (writePropertyValue fuel api)"
| "writeSchemaRef 0 api = (\<lambda>_. outOfFuel)"
| "writeSchemaRef (Suc fuel) api = writeSchemaRefBody (writeObject fuel api) api"
| "writeProperties 0 api = (\<lambda>_. outOfFuel)"
| "writeProperties (Suc fuel) api =
     writePropertiesBody (writeObject fuel api) (writeSchemaRef fuel api)
       (writePropertyValue fuel api)"

text \<open>
  The state of a fresh \<open>IndentedTextWriter\<close> (\<open>indent = 0\<close>, nothing written) and a
  fresh \<open>App\<close> (\<open>seenSchemaRefs = new Set()\<close>).
\<close>

definition initialWorld :: world where
  "initialWorld = \<lparr>out = [], indent = 0, seenSchemaRefs = {}, writtenTopLevelResourceNames = []\<rparr>"

text \<open>
  A computation keeps the set of references being expanded when every normal return
  leaves \<open>seenSchemaRefs\<close> as it was.
\<close>

definition keepsSeen :: "'a js \<Rightarrow> bool" where
  "keepsSeen f = (\<forall>s s' x. f s = (Return x, s') \<longrightarrow> seenSchemaRefs s' = seenSchemaRefs s)"

text \<open>
  Array suffixing in the words of the specification: a flat token gets \<open>[]\<close> appended,
  a nested rendering is wrapped as \<open>Array<\<close> ... \<open>>\<close>, an error stays an error.
  \<open>getType\<close> on an array node is compared with it.
\<close>

definition spec_arraySuffix :: "error + StringOrCallback \<Rightarrow> error + StringOrCallback" where
  "spec_arraySuffix rendering =
     (case rendering of
        Inl e \<Rightarrow> Inl e
      | Inr (Str token) \<Rightarrow> Inr (Str (token @ str ''[]''))
      | Inr (Callback nested) \<Rightarrow>
          Inr (Callback (js_block [iwrite (str ''Array<''), nested, iwrite (str ''>'')])))"

text \<open>
  An environment for the concrete examples: 200 columns, no banned type, no interface
  name with the prefix, and stand-ins for the two imported functions (the resource type
  name is the name with \<open>Resource\<close> appended, the entries are sorted by key).
\<close>

definition exampleEnv :: env where
  "exampleEnv =
     \<lparr>maxLineLength = 200, includesBannedType = (\<lambda>_. False), hasPrefixI = (\<lambda>_. False),
      getResourceTypeName = (\<lambda>name. name @ str ''Resource''), sortObject = sort_key fst\<rparr>"

text \<open>
  What the loop over \<open>irregularSpaces\<close> makes of one line: every irregular space
  replaced by an ordinary one.
\<close>

definition replaceIrregularSpaces :: "jstring \<Rightarrow> jstring" where
  "replaceIrregularSpaces line = foldl (\<lambda>l sp. replaceChar sp l) line irregularSpaces"

section \<open>Basic facts about the effects\<close>

lemma js_bind_Return [simp]: "f s = (Return x, s') \<Longrightarrow> js_bind f g s = g x s'"
  by (simp add: js_bind_def)

lemma js_bind_Throw [simp]: "f s = (Throw e, s') \<Longrightarrow> js_bind f g s = (Throw e, s')"
  by (simp add: js_bind_def)

lemma js_bind_OutOfFuel [simp]: "f s = (OutOfFuel, s') \<Longrightarrow> js_bind f g s = (OutOfFuel, s')"
  by (simp add: js_bind_def)

lemma js_seq_Return [simp]: "f s = (Return x, s') \<Longrightarrow> js_seq f g s = g s'"
  by (simp add: js_seq_def)

lemma js_seq_Throw [simp]: "f s = (Throw e, s') \<Longrightarrow> js_seq f g s = (Throw e, s')"
  by (simp add: js_seq_def)

lemma js_seq_OutOfFuel [simp]: "f s = (OutOfFuel, s') \<Longrightarrow> js_seq f g s = (OutOfFuel, s')"
  by (simp add: js_seq_def)

lemma js_return_apply [simp]: "js_return x s = (Return x, s)"
  by (simp add: js_return_def)

lemma js_throw_apply [simp]: "js_throw e s = (Throw e, s)"
  by (simp add: js_throw_def)

lemma iwrite_apply [simp]: "iwrite chunk s = (Return (), s\<lparr>out := out s @ chunk\<rparr>)"
  by (simp add: iwrite_def)

lemma indentInc_apply [simp]: "indentInc s = (Return (), s\<lparr>indent := indent s + 1\<rparr>)"
  by (simp add: indentInc_def)

lemma indentDec_apply [simp]: "indentDec s = (Return (), s\<lparr>indent := indent s - 1\<rparr>)"
  by (simp add: indentDec_def)

lemma startIndentedLine_apply:
  "startIndentedLine chunk s =
     (if indent s + 1 < 0 then (Throw (RangeError (str ''Invalid array length'')), s)
      else (Return (), s\<lparr>out := out s @ concat (replicate (nat (indent s)) tabString) @ chunk\<rparr>))"
  by (simp add: startIndentedLine_def js_lift_def indentation_def js_bind_def)

lemma endIndentedLine_apply:
  "endIndentedLine chunk s =
     (if indent s + 1 < 0 then (Throw (RangeError (str ''Invalid array length'')), s)
      else (Return (), s\<lparr>out := out s @ chunk @ concat (replicate (nat (indent s)) tabString)\<rparr>))"
  by (simp add: endIndentedLine_def js_lift_def indentation_def js_bind_def)

lemma endLine_apply [simp]:
  "endLine chunk s = (Return (), s\<lparr>out := out s @ chunk @ newLineString\<rparr>)"
  by (simp add: endLine_def)

lemma js_seq_return_left [simp]: "js_seq (js_return x) g = g"
  by (rule ext) (simp add: js_seq_def js_bind_def)

lemma js_seq_return_right [simp]: "js_seq f (js_return ()) = f"
proof (rule ext)
  fix s
  obtain r s' where "f s = (r, s')" by (cases "f s")
  then show "js_seq f (js_return ()) s = f s"
    by (cases r) (simp_all add: js_seq_def js_bind_def)
qed

lemma js_when_True [simp]: "js_when True f = f"
  by (simp add: js_when_def)

lemma js_when_False [simp]: "js_when False f = js_return ()"
  by (simp add: js_when_def)

section \<open>C3: scoped emission and the indent depth\<close>

text \<open>
  Claim C3, as amended. \<open>braces\<close>, \<open>anonymousType\<close> and \<open>scope\<close> increment the indent
  depth, run the body and decrement it, with nothing that would run the decrement when
  the body throws. For a body that leaves the depth as it found it whenever it returns,
  every call that returns has the depth it started with; the counterexample below shows
  a throwing body leaving the depth incremented.
\<close>

theorem scoped_emission_restores_indent:
  assumes pres: "\<And>s s'. body s = (Return (), s') \<Longrightarrow> indent s' = indent s"
  shows "(fst (braces txt body s) = Return () \<longrightarrow> indent (snd (braces txt body s)) = indent s)
       \<and> (fst (anonymousType body s) = Return () \<longrightarrow> indent (snd (anonymousType body s)) = indent s)
       \<and> (fst (scope body startTag endTag s) = Return ()
            \<longrightarrow> indent (snd (scope body startTag endTag s)) = indent s)"
proof (intro conjI impI)
  assume ret: "fst (braces txt body s) = Return ()"
  obtain r s1 where b: "body (snd (iwriteLine (txt @ str '' {'') s)\<lparr>indent := indent s + 1\<rparr>) = (r, s1)"
    by (cases "body (snd (iwriteLine (txt @ str '' {'') s)\<lparr>indent := indent s + 1\<rparr>)")
  show "indent (snd (braces txt body s)) = indent s"
    using ret b pres[of _ s1]
    by (cases r) (auto simp: braces_def iwriteLine_def startIndentedLine_apply js_seq_def js_bind_def split: if_splits)
next
  assume ret: "fst (anonymousType body s) = Return ()"
  obtain r s1 where b: "body (s\<lparr>out := out s @ str ''{'' @ newLineString, indent := indent s + 1\<rparr>) = (r, s1)"
    by (cases "body (s\<lparr>out := out s @ str ''{'' @ newLineString, indent := indent s + 1\<rparr>)")
  show "indent (snd (anonymousType body s)) = indent s"
    using ret b pres[of _ s1]
    by (cases r) (auto simp: anonymousType_def startIndentedLine_apply js_seq_def js_bind_def split: if_splits)
next
  assume ret: "fst (scope body startTag endTag s) = Return ()"
  obtain r s1 where b: "body (s\<lparr>out := out s @ startTag @ newLineString, indent := indent s + 1\<rparr>) = (r, s1)"
    by (cases "body (s\<lparr>out := out s @ startTag @ newLineString, indent := indent s + 1\<rparr>)")
  show "indent (snd (scope body startTag endTag s)) = indent s"
    using ret b pres[of _ s1]
    by (cases r) (auto simp: scope_def startIndentedLine_apply js_seq_def js_bind_def split: if_splits)
qed

theorem scoped_emission_throwing_body_counterexample:
  "indent (snd (braces (str ''namespace x'') (js_throw (Error (str ''boom''))) initialWorld)) = 1
   \<and> indent (snd (anonymousType (js_throw (Error (str ''boom''))) initialWorld)) = 1
   \<and> indent (snd (scope (js_throw (Error (str ''boom''))) (str ''{'') (str ''}'') initialWorld)) = 1
   \<and> indent initialWorld = 0"
  by (simp add: braces_def anonymousType_def scope_def iwriteLine_def startIndentedLine_apply
      initialWorld_def)

theorem scoped_emission_restores_indent_witness:
  "indent (snd (braces (str ''namespace x'') (iwrite (str ''y'')) initialWorld)) = indent initialWorld
   \<and> indent (snd (anonymousType (iwrite (str ''y'')) initialWorld)) = indent initialWorld
   \<and> indent (snd (scope (iwrite (str ''y'')) (str ''['') (str '']'') initialWorld)) = indent initialWorld"
proof -
  have pres: "\<And>s s'. iwrite (str ''y'') s = (Return (), s') \<Longrightarrow> indent s' = indent s"
    by auto
  have r1: "fst (braces (str ''namespace x'') (iwrite (str ''y'')) initialWorld) = Return ()"
    by (simp add: braces_def iwriteLine_def startIndentedLine_apply initialWorld_def)
  have r2: "fst (anonymousType (iwrite (str ''y'')) initialWorld) = Return ()"
    by (simp add: anonymousType_def startIndentedLine_apply initialWorld_def)
  have r3: "fst (scope (iwrite (str ''y'')) (str ''['') (str '']'') initialWorld) = Return ()"
    by (simp add: scope_def startIndentedLine_apply initialWorld_def)
  show ?thesis
    using scoped_emission_restores_indent[of "iwrite (str ''y'')" "str ''namespace x''" initialWorld
        "str ''[''" "str '']''", OF pres] r1 r2 r3
    by blast
qed

section \<open>C2: the stub-value generator and the references being expanded\<close>

lemma keepsSeenI: "(\<And>s s' x. f s = (Return x, s') \<Longrightarrow> seenSchemaRefs s' = seenSchemaRefs s) \<Longrightarrow> keepsSeen f"
  by (auto simp: keepsSeen_def)

lemma keepsSeenD: "keepsSeen f \<Longrightarrow> f s = (Return x, s') \<Longrightarrow> seenSchemaRefs s' = seenSchemaRefs s"
  by (auto simp: keepsSeen_def)

lemma keepsSeen_return [simp]: "keepsSeen (js_return x)"
  by (simp add: keepsSeen_def)

lemma keepsSeen_Pair [simp]: "keepsSeen (Pair (Return x))"
  by (simp add: keepsSeen_def)

lemma keepsSeen_throw [simp]: "keepsSeen (js_throw e)"
  by (simp add: keepsSeen_def)

lemma keepsSeen_outOfFuel [simp]: "keepsSeen outOfFuel"
  by (simp add: keepsSeen_def outOfFuel_def)

lemma keepsSeen_lift [simp]: "keepsSeen (js_lift r)"
  by (cases r) (simp_all add: js_lift_def)

lemma keepsSeen_iwrite [simp]: "keepsSeen (iwrite chunk)"
  by (auto simp: keepsSeen_def)

lemma keepsSeen_indentInc [simp]: "keepsSeen indentInc"
  by (auto simp: keepsSeen_def)

lemma keepsSeen_indentDec [simp]: "keepsSeen indentDec"
  by (auto simp: keepsSeen_def)

lemma keepsSeen_startIndentedLine [simp]: "keepsSeen (startIndentedLine chunk)"
  by (auto simp: keepsSeen_def startIndentedLine_apply split: if_splits)

lemma keepsSeen_bind: "keepsSeen f \<Longrightarrow> (\<And>x. keepsSeen (g x)) \<Longrightarrow> keepsSeen (js_bind f g)"
  unfolding keepsSeen_def js_bind_def
  by (auto split: prod.splits outcome.splits)

lemma keepsSeen_seq: "keepsSeen f \<Longrightarrow> keepsSeen g \<Longrightarrow> keepsSeen (js_seq f g)"
  by (simp add: js_seq_def keepsSeen_bind)

lemma keepsSeen_block: "(\<And>f. f \<in> set fs \<Longrightarrow> keepsSeen f) \<Longrightarrow> keepsSeen (js_block fs)"
  by (induction fs) (simp_all add: keepsSeen_seq)

lemma keepsSeen_twrite [simp]: "keepsSeen (twrite (Str x))"
  by (simp add: twrite_def)

lemma keepsSeen_newLine [simp]: "keepsSeen (newLine chunk)"
  by (simp add: newLine_def)

lemma keepsSeen_endLine [simp]: "keepsSeen (endLine chunk)"
  by (simp add: endLine_def keepsSeen_seq)

lemma keepsSeen_scope: "keepsSeen body \<Longrightarrow> keepsSeen (scope body a b)"
  unfolding scope_def by (rule keepsSeen_block) auto

lemma keepsSeen_if_state:
  "keepsSeen f \<Longrightarrow> keepsSeen g \<Longrightarrow> keepsSeen (\<lambda>s. if c s then f s else g s)"
  by (auto simp: keepsSeen_def)

lemma keepsSeen_writePropertyValueBody:
  assumes "\<And>x. keepsSeen (wa x)" and "\<And>x. keepsSeen (wo x)"
  shows "keepsSeen (writePropertyValueBody wa wo prop)"
  unfolding writePropertyValueBody_def using assms by (simp add: keepsSeen_bind)

lemma keepsSeen_writeArrayBody:
  assumes wr: "\<And>x. keepsSeen (wr x)" and wp: "\<And>x. keepsSeen (wp x)"
  shows "keepsSeen (writeArrayBody wr wp items)"
proof -
  have inner: "keepsSeen (if truthy (schema_ref items)
                          then (case schema_ref items of None \<Rightarrow> js_return () | Some n \<Rightarrow> wr n)
                          else wp items)"
    by (simp add: wr wp split: option.splits)
  show ?thesis
    unfolding writeArrayBody_def Let_def
    by (intro keepsSeen_if_state keepsSeen_scope keepsSeen_seq inner) simp_all
qed

lemma keepsSeen_writeObjectBody:
  assumes wps: "\<And>x. keepsSeen (wps x)" and wr: "\<And>x. keepsSeen (wr x)"
    and wp: "\<And>x. keepsSeen (wp x)"
  shows "keepsSeen (writeObjectBody wps wr wp obj)"
proof -
  let ?name = "case schema_additionalProperties obj of None \<Rightarrow> None | Some ap \<Rightarrow> schema_ref ap"
  have inner: "keepsSeen (if truthy ?name
                          then (case ?name of None \<Rightarrow> js_return () | Some n \<Rightarrow> wr n)
                          else wp ap)" for ap
    by (simp add: wr wp split: option.splits)
  show ?thesis
  proof (cases "schema_properties obj")
    case (Some ps)
    show ?thesis
      unfolding writeObjectBody_def Let_def Some option.case
      by (intro keepsSeen_if_state keepsSeen_scope wps) simp_all
  next
    case None
    show ?thesis
    proof (cases "schema_additionalProperties obj")
      case (Some ap)
      have name: "?name = schema_ref ap" by (simp add: Some)
      show ?thesis
        unfolding writeObjectBody_def Let_def None Some option.case
        using inner[of ap, unfolded name]
        by (intro keepsSeen_if_state keepsSeen_scope keepsSeen_seq) simp_all
    next
      case None': None
      show ?thesis
        unfolding writeObjectBody_def Let_def None None' option.case
        by (intro keepsSeen_if_state wp) simp_all
    qed
  qed
qed

lemma keepsSeen_writePropertiesBody:
  assumes "\<And>x. keepsSeen (wo x)" and "\<And>x. keepsSeen (wr x)" and "\<And>x. keepsSeen (wp x)"
  shows "keepsSeen (writePropertiesBody wo wr wp props)"
proof (induction props)
  case Nil
  show ?case by simp
next
  case (Cons entry rest)
  obtain name parameter where e: "entry = (name, parameter)" by (cases entry)
  show ?case unfolding e writePropertiesBody.simps
    by (rule keepsSeen_block) (auto simp: Cons assms split: option.splits)
qed

lemma writeSchemaRefBody_Return:
  assumes wo: "\<And>x. keepsSeen (wo x)"
    and run: "writeSchemaRefBody wo api schemaName s = (Return (), s')"
    and fresh: "schemaName \<notin> seenSchemaRefs s"
  shows "\<exists>schemas schema s1.
           api_schemas api = Some schemas \<and> schemas schemaName = Some schema
           \<and> wo schema (s\<lparr>seenSchemaRefs := insert schemaName (seenSchemaRefs s)\<rparr>) = (Return (), s1)
           \<and> s' = s1\<lparr>seenSchemaRefs := seenSchemaRefs s1 - {schemaName}\<rparr>
           \<and> seenSchemaRefs s' = seenSchemaRefs s"
proof -
  from run fresh obtain schemas where a: "api_schemas api = Some schemas"
    by (cases "api_schemas api") (auto simp: writeSchemaRefBody_def checkExists_def js_lift_def)
  from run fresh a obtain schema where b: "schemas schemaName = Some schema"
    by (cases "schemas schemaName") (auto simp: writeSchemaRefBody_def checkExists_def js_lift_def)
  let ?s0 = "s\<lparr>seenSchemaRefs := insert schemaName (seenSchemaRefs s)\<rparr>"
  obtain r s1 where c: "wo schema ?s0 = (r, s1)" by (cases "wo schema ?s0")
  from run fresh a b c have r: "r = Return ()" and s': "s' = s1\<lparr>seenSchemaRefs := seenSchemaRefs s1 - {schemaName}\<rparr>"
    by (cases r; auto simp: writeSchemaRefBody_def checkExists_def js_lift_def seenAdd_def
        seenDelete_def js_seq_def js_bind_def)+
  from keepsSeenD[OF wo] c r have "seenSchemaRefs s1 = insert schemaName (seenSchemaRefs s)"
    by fastforce
  with fresh s' have "seenSchemaRefs s' = seenSchemaRefs s" by auto
  with a b c r s' show ?thesis by auto
qed

lemma keepsSeen_writeSchemaRefBody:
  assumes wo: "\<And>x. keepsSeen (wo x)"
  shows "keepsSeen (writeSchemaRefBody wo api schemaName)"
proof (rule keepsSeenI)
  fix s s' x
  assume run: "writeSchemaRefBody wo api schemaName s = (Return x, s')"
  show "seenSchemaRefs s' = seenSchemaRefs s"
  proof (cases "schemaName \<in> seenSchemaRefs s")
    case True
    with run show ?thesis by (auto simp: writeSchemaRefBody_def twrite_def)
  next
    case False
    with writeSchemaRefBody_Return[where wo = wo and s = s and s' = s' and api = api, OF wo] run show ?thesis by (cases x) blast
  qed
qed

lemma keepsSeen_stub:
  "(\<forall>x. keepsSeen (writePropertyValue fuel api x)) \<and> (\<forall>x. keepsSeen (writeArray fuel api x))
   \<and> (\<forall>x. keepsSeen (writeObject fuel api x)) \<and> (\<forall>x. keepsSeen (writeSchemaRef fuel api x))
   \<and> (\<forall>x. keepsSeen (writeProperties fuel api x))"
proof (induction fuel)
  case 0
  show ?case by simp
next
  case (Suc fuel)
  then show ?case
    by (simp add: keepsSeen_writePropertyValueBody keepsSeen_writeArrayBody
        keepsSeen_writeObjectBody keepsSeen_writeSchemaRefBody keepsSeen_writePropertiesBody)
qed

text \<open>
  Claim C2, as amended. \<open>writeSchemaRef\<close> on a name that is not being expanded adds
  the name, runs \<open>writeObject\<close> on the target with the name in the set, and removes
  it: when the call returns, \<open>seenSchemaRefs\<close> is what it was before. Nothing removes
  the name when \<open>writeObject\<close> throws; the counterexample below shows the name left
  in the set.
\<close>

theorem writeSchemaRef_restores_seenSchemaRefs:
  assumes "schemaName \<notin> seenSchemaRefs s"
    and "writeSchemaRef fuel api schemaName s = (Return (), s')"
  shows "seenSchemaRefs s' = seenSchemaRefs s
       \<and> (\<exists>fuel' schemas schema s1.
             fuel = Suc fuel' \<and> api_schemas api = Some schemas \<and> schemas schemaName = Some schema
             \<and> writeObject fuel' api schema
                  (s\<lparr>seenSchemaRefs := insert schemaName (seenSchemaRefs s)\<rparr>) = (Return (), s1)
             \<and> s' = s1\<lparr>seenSchemaRefs := seenSchemaRefs s1 - {schemaName}\<rparr>)"
proof (cases fuel)
  case 0
  with assms show ?thesis by (simp add: outOfFuel_def)
next
  case (Suc fuel')
  have wo: "\<And>x. keepsSeen (writeObject fuel' api x)"
    using keepsSeen_stub[of fuel' api] by blast
  from assms(2) have "writeSchemaRefBody (writeObject fuel' api) api schemaName s = (Return (), s')"
    by (simp add: Suc)
  from writeSchemaRefBody_Return[where wo = "writeObject fuel' api", OF wo this assms(1)] Suc show ?thesis by blast
qed

theorem writeSchemaRef_throw_leaks_counterexample:
  "\<forall>n. fst (writeSchemaRef (Suc (Suc (Suc n)))
             \<lparr>api_schemas = Some [str ''A'' \<mapsto> JsonSchema (Some (str ''foo'')) None None None None
                                              None None None]\<rparr>
             (str ''A'') initialWorld)
        = Throw (Error (str ''Unknown scalar type foo''))
      \<and> seenSchemaRefs (snd (writeSchemaRef (Suc (Suc (Suc n)))
             \<lparr>api_schemas = Some [str ''A'' \<mapsto> JsonSchema (Some (str ''foo'')) None None None None
                                              None None None]\<rparr>
             (str ''A'') initialWorld))
        = {str ''A''}
      \<and> seenSchemaRefs initialWorld = {}"
  by (simp add: writeSchemaRefBody_def writeObjectBody_def writePropertyValueBody_def initialWorld_def
      checkExists_def js_lift_def seenAdd_def seenDelete_def js_seq_def js_bind_def truthy_def
      str_def)

theorem writeSchemaRef_restores_seenSchemaRefs_witness:
  "seenSchemaRefs (snd (writeSchemaRef (Suc (Suc (Suc (Suc 0))))
      \<lparr>api_schemas = Some [str ''A'' \<mapsto> JsonSchema (Some (str ''object'')) None None None None None
                            (Some [(str ''n'', JsonSchema (Some (str ''integer'')) None None None None
                                                 None None None)]) None]\<rparr>
      (str ''A'') initialWorld)) = seenSchemaRefs initialWorld
   \<and> writeSchemaRef (Suc (Suc (Suc (Suc 0))))
      \<lparr>api_schemas = Some [str ''A'' \<mapsto> JsonSchema (Some (str ''object'')) None None None None None
                            (Some [(str ''n'', JsonSchema (Some (str ''integer'')) None None None None
                                                 None None None)]) None]\<rparr>
      (str ''A'') initialWorld
     = (Return (), initialWorld\<lparr>out := str ''{'' @ newLineString @ str ''    n: 42,'' @ newLineString @ str ''}''\<rparr>)"
proof -
  let ?api = "\<lparr>api_schemas = Some [str ''A'' \<mapsto> JsonSchema (Some (str ''object'')) None None None None None
                            (Some [(str ''n'', JsonSchema (Some (str ''integer'')) None None None None
                                                 None None None)]) None]\<rparr>"
  have run: "writeSchemaRef (Suc (Suc (Suc (Suc 0)))) ?api (str ''A'') initialWorld
     = (Return (), initialWorld\<lparr>out := str ''{'' @ newLineString @ str ''    n: 42,'' @ newLineString @ str ''}''\<rparr>)"
    by (simp add: writeSchemaRefBody_def writeObjectBody_def writePropertyValueBody_def
        initialWorld_def checkExists_def js_lift_def seenAdd_def seenDelete_def js_seq_def
        js_bind_def truthy_def scope_def newLine_def startIndentedLine_apply twrite_def
        formatPropertyName_def includesChar_def tabString_def newLineString_def str_def)
  have fresh: "str ''A'' \<notin> seenSchemaRefs initialWorld"
    by (simp add: initialWorld_def)
  from writeSchemaRef_restores_seenSchemaRefs[OF fresh run] run show ?thesis by simp
qed

section \<open>Facts about the type translator\<close>



lemma getType_array:
  "getType cfg (JsonSchema (Some (str ''array'')) rf rep req desc (Some n) props addl) schemas
     = spec_arraySuffix (getType cfg n schemas)"
  by (simp add: spec_arraySuffix_def checkExists_def twrite_def split: sum.splits StringOrCallback.splits)

section \<open>C1: a reference to an empty schema\<close>




section \<open>C6: scalar kinds\<close>




section \<open>C8: arrays\<close>

text \<open>
  Claim C8. For every node \<open>n\<close>, \<open>getType\<close> on an array node with items \<open>n\<close> is the
  array suffixing of \<open>getType\<close> on \<open>n\<close>: \<open>[]\<close> appended to a flat token, an
  \<open>Array<\<close> ... \<open>>\<close> wrapping around a nested rendering; an array of an array of \<open>n\<close>
  is suffixed twice.
\<close>

theorem array_rendering:
  "getType cfg (JsonSchema (Some (str ''array'')) rf rep req desc (Some n) props addl) schemas
     = spec_arraySuffix (getType cfg n schemas)
   \<and> getType cfg
       (JsonSchema (Some (str ''array'')) rf' rep' req' desc'
          (Some (JsonSchema (Some (str ''array'')) rf rep req desc (Some n) props addl)) props' addl')
       schemas
     = spec_arraySuffix (spec_arraySuffix (getType cfg n schemas))"
  by (simp only: getType_array simp_thms)

theorem array_rendering_witness:
  "\<forall>cfg schemas.
     getType cfg
       (JsonSchema (Some (str ''array'')) None None None None
          (Some (JsonSchema (Some (str ''array'')) None None None None
             (Some (JsonSchema (Some (str ''string'')) None None None None None None None))
             None None)) None None)
       schemas
     = Inr (Str (str ''string[][]''))"
proof (intro allI)
  fix cfg schemas
  let ?n = "JsonSchema (Some (str ''string'')) None None None None None None None"
  have "getType cfg ?n schemas = Inr (Str (str ''string''))"
    by (simp add: truthy_def scalarType_def typesMap_def truthyBool_def str_def)
  with array_rendering[of cfg None None None None ?n None None schemas None None None None None None]
  show "getType cfg
       (JsonSchema (Some (str ''array'')) None None None None
          (Some (JsonSchema (Some (str ''array'')) None None None None (Some ?n) None None)) None None)
       schemas
     = Inr (Str (str ''string[][]''))"
    by (simp add: spec_arraySuffix_def str_def)
qed

section \<open>C10: the wrapper name of the return type\<close>

text \<open>
  Claim C10. \<open>getMethodReturn\<close> returns a type for every method but one whose response
  has no \<open>$ref\<close>. The type is \<open>W<P>\<close>, where the wrapper name \<open>W\<close> (the text before
  the first \<open><\<close>) is \<open>client.Request\<close> exactly when the registry has an entry named
  \<open>Request\<close> and \<open>Request\<close> otherwise, in each of the three cases of the parameter
  \<open>P\<close>: the response name when its schema has properties, \<open>{}\<close> when the schema has
  none or is not in the registry, \<open>void\<close> when no response is declared.
\<close>

theorem getMethodReturn_wrapper_name:
  "(method_response m \<noteq> Some None \<longrightarrow> (\<exists>ret. getMethodReturn m schemas = Inr ret))
   \<and> (\<forall>ret. getMethodReturn m schemas = Inr ret \<longrightarrow>
         takeWhile (\<lambda>c. c \<noteq> 60) ret
           = (if schemas (str ''Request'') \<noteq> None then str ''client.Request'' else str ''Request'')
         \<and> (\<exists>parameter.
               ret = (if schemas (str ''Request'') \<noteq> None then str ''client.Request''
                      else str ''Request'') @ str ''<'' @ parameter @ str ''>''
               \<and> (case method_response m of
                      None \<Rightarrow> parameter = str ''void''
                    | Some response \<Rightarrow>
                        (case schemas (case response of None \<Rightarrow> [] | Some r \<Rightarrow> r) of
                           None \<Rightarrow> parameter = str ''{}''
                         | Some schema \<Rightarrow>
                             (case schema_properties schema of
                                None \<Rightarrow> parameter = str ''{}''
                              | Some ps \<Rightarrow>
                                  if ps = [] then parameter = str ''{}''
                                  else response = Some parameter)))))"
proof -
  let ?w = "if schemas (str ''Request'') \<noteq> None then str ''client.Request'' else str ''Request''"
  have tw: "takeWhile (\<lambda>c. c \<noteq> 60) (?w @ str ''<'' @ p @ str ''>'') = ?w" for p
    by (simp add: str_def)
  show ?thesis
  proof (cases "method_response m")
    case None
    then show ?thesis using tw[of "str ''void''"]
      by (auto simp: getMethodReturn_def str_def)
  next
    case (Some response)
    show ?thesis
    proof (cases response)
      case None
      with Some show ?thesis by (simp add: getMethodReturn_def checkExists_def)
    next
      case r: (Some r)
      show ?thesis
      proof (cases "schemas r")
        case None
        with Some r show ?thesis using tw[of "str ''{}''"]
          by (auto simp: getMethodReturn_def checkExists_def str_def)
      next
        case s: (Some schema)
        show ?thesis
        proof (cases "schema_properties schema")
          case None
          with Some r s show ?thesis using tw[of "str ''{}''"]
            by (auto simp: getMethodReturn_def checkExists_def str_def)
        next
          case ps: (Some ps)
          with Some r s show ?thesis using tw[of "str ''{}''"] tw[of r]
            by (cases "ps = []") (auto simp: getMethodReturn_def checkExists_def str_def)
        qed
      qed
    qed
  qed
qed

theorem getMethodReturn_wrapper_name_witness:
  "getMethodReturn
     \<lparr>method_id = Some (str ''ns.res.get''), method_description = None, method_request = None,
      method_response = Some (Some (str ''Thing'')), method_parameters = None\<rparr>
     [str ''Request'' \<mapsto> JsonSchema None None None None None None None None,
      str ''Thing'' \<mapsto> JsonSchema (Some (str ''object'')) None None None None None
                          (Some [(str ''a'', JsonSchema (Some (str ''string'')) None None None None None None None)])
                          None]
     = Inr (str ''client.Request<Thing>'')
   \<and> takeWhile (\<lambda>c. c \<noteq> 60) (str ''client.Request<Thing>'') = str ''client.Request''"
proof -
  let ?m = "\<lparr>method_id = Some (str ''ns.res.get''), method_description = None, method_request = None,
      method_response = Some (Some (str ''Thing'')), method_parameters = None\<rparr>"
  let ?s = "[str ''Request'' \<mapsto> JsonSchema None None None None None None None None,
      str ''Thing'' \<mapsto> JsonSchema (Some (str ''object'')) None None None None None
                          (Some [(str ''a'', JsonSchema (Some (str ''string'')) None None None None None None None)])
                          None]"
  have run: "getMethodReturn ?m ?s = Inr (str ''client.Request<Thing>'')"
    by (simp add: getMethodReturn_def checkExists_def str_def)
  have req: "?s (str ''Request'') \<noteq> None"
    by (simp add: str_def)
  from getMethodReturn_wrapper_name[of ?m ?s] run req show ?thesis
    by (simp del: fun_upd_apply)
qed

section \<open>Facts about the walker and the examples\<close>




lemma exampleEnv_simps:
  "maxLineLength exampleEnv = 200"
  "includesBannedType exampleEnv t = False"
  "hasPrefixI exampleEnv name = False"
  "getResourceTypeName exampleEnv name = name @ str ''Resource''"
  "sortObject exampleEnv ps = sort_key fst ps"
  by (simp_all add: exampleEnv_def)


lemmas eval_writer =
  formatPropertyName_def includesChar_def checkExists_def js_lift_def method_signature_def Let_def
  anonymousType_def property_def exampleEnv_simps truthy_def truthyBool_def js_when_def js_seq_def
  js_bind_def twrite_def iwriteLine_def iwriteNewLine_def writeNewLine_def startIndentedLine_apply
  endIndentedLine_apply initialWorld_def tabString_def newLineString_def

section \<open>C5: the two overloads of a method with a request body\<close>




section \<open>C7: references to schemas that the registry lacks\<close>




section \<open>C4: a resource with no methods and no nested resources\<close>

text \<open>
  Claim C4, at the input where the code departs from it. A resource with no methods and
  no nested resources is written as an empty interface, and no directive for the
  empty-interface rule stands before it: \<open>writeResources\<close> calls \<open>interface\<close> without
  the \<open>emptyInterface\<close> argument, which the loop over the schemas does pass.
\<close>

theorem empty_resource_interface_without_directive:
  "writeResources exampleEnv [(str ''things'', RestResource None None)] [] Map.empty (str ''ns'')
     initialWorld
   = (Return [str ''things''],
      initialWorld\<lparr>out := str ''interface thingsResource {\<newline>}\<newline>''\<rparr>)"
  by (simp add: writeResources_def withWrittenNames_def interface_def braces_def
      pushWrittenName_def eval_writer str_def)

text \<open>
  The other half of the claim is what the code does: a resource that has methods or
  nested resources, and no method of the namespace, gets no interface in this pass; only
  its nested resources are walked.
\<close>

lemma resource_without_namespace_methods_skipped:
  assumes "filterMethods ns (case ms of None \<Rightarrow> [] | Some entries \<Rightarrow> entries) = Inr []"
    and "(case ms of None \<Rightarrow> False | Some entries \<Rightarrow> entries \<noteq> [])
         \<or> (case rs of None \<Rightarrow> False | Some children \<Rightarrow> children \<noteq> [])"
  shows "writeResourcesEach cfg [(resourceName, RestResource ms rs)] parameters schemas ns =
           (case rs of
              None \<Rightarrow> js_return ()
            | Some children \<Rightarrow>
                js_bind (withWrittenNames (writeResourcesEach cfg children parameters schemas ns))
                  (\<lambda>_. js_return ()))"
proof -
  have lift: "js_bind (js_lift (Inr x)) g = g x" for x :: 'a and g :: "'a \<Rightarrow> unit js"
    by (rule ext) (simp add: js_lift_def js_bind_def)
  have ret: "js_seq f (Pair (Return ())) = f" for f :: "unit js"
    using js_seq_return_right[of f] by (simp add: js_return_def)
  from assms show ?thesis
    by (cases ms; cases rs) (auto simp: Let_def lift ret)
qed

section \<open>Facts about the comment writer\<close>

lemma length_trim_le: "length (trim x) \<le> length x"
proof -
  have "length (dropWhile isWhiteSpace (rev (dropWhile isWhiteSpace x)))
          \<le> length (rev (dropWhile isWhiteSpace x))"
    by (rule length_dropWhile_le)
  also have "\<dots> \<le> length x"
    by (simp add: length_dropWhile_le)
  finally show ?thesis by (simp add: trim_def)
qed

lemma split_not_Nil: "split c l \<noteq> []"
  by (induction l) (auto split: list.splits)

lemma split_elem_length: "w \<in> set (split c l) \<Longrightarrow> length w \<le> length l"
proof (induction l arbitrary: w)
  case Nil
  then show ?case by simp
next
  case (Cons x xs)
  show ?case
  proof (cases "x = c")
    case True
    with Cons show ?thesis by (auto simp: le_SucI)
  next
    case False
    obtain p ps where sp: "split c xs = p # ps"
      using split_not_Nil[of c xs] by (cases "split c xs") auto
    from Cons.prems False sp have "w = x # p \<or> w \<in> set ps" by simp
    then show ?thesis
    proof
      assume "w = x # p"
      moreover have "length p \<le> length xs" using Cons.IH[of p] sp by simp
      ultimately show ?thesis by simp
    next
      assume "w \<in> set ps"
      then have "length w \<le> length xs" using Cons.IH[of w] sp by simp
      then show ?thesis by simp
    qed
  qed
qed

lemma length_replaceChar [simp]: "length (replaceChar sp l) = length l"
  by (simp add: replaceChar_def)

lemma length_foldl_replaceChar: "length (foldl (\<lambda>l sp. replaceChar sp l) line sps) = length line"
  by (induction sps arbitrary: line) simp_all

lemma length_replaceIrregularSpaces [simp]: "length (replaceIrregularSpaces l) = length l"
  by (simp add: replaceIrregularSpaces_def length_foldl_replaceChar)

lemma foldl_map_replaceChar:
  "foldl (\<lambda>ls sp. map (replaceChar sp) ls) lines sps
     = map (\<lambda>line. foldl (\<lambda>l sp. replaceChar sp l) line sps) lines"
  by (induction sps arbitrary: lines) (simp_all add: comp_def)

lemma commentLines_map:
  "commentLines maxLen txt
     = map (\<lambda>x. replaceIrregularSpaces (trim x))
         (wrapLines maxLen (splitLines (trim (escapeJsdocTags (escapeCommentEnd txt)))) [])"
  by (simp add: commentLines_def Let_def foldl_map_replaceChar replaceIrregularSpaces_def comp_def)

lemma packWords_long:
  assumes "packWords B words ls nl = (ls', nl')"
  shows "set ls \<subseteq> set ls'
       \<and> (B \<le> int (length nl) \<longrightarrow> nl \<in> set ls' \<union> {nl'})
       \<and> (\<forall>w \<in> set words. B < int (length w) \<longrightarrow> w \<in> set ls' \<union> {nl'})"
  using assms
proof (induction words arbitrary: ls nl)
  case Nil
  then show ?case by simp
next
  case (Cons word words)
  have one: "int (length (str '' '')) = 1" by (simp add: str_def)
  show ?case
  proof (cases "int (length nl) + 1 + int (length word) > B")
    case True
    with Cons.prems have run: "packWords B words (ls @ [nl]) word = (ls', nl')"
      by (simp add: one)
    from Cons.IH[OF run] show ?thesis by auto
  next
    case False
    show ?thesis
    proof (cases "nl = []")
      case True
      with False Cons.prems have run: "packWords B words ls word = (ls', nl')"
        by (simp add: one)
      from Cons.IH[OF run] False True show ?thesis by auto
    next
      case ne: False
      with False Cons.prems have run: "packWords B words ls (nl @ str '' '' @ word) = (ls', nl')"
        by (simp add: one)
      from Cons.IH[OF run] False show ?thesis by auto
    qed
  qed
qed

lemma wrapLines_acc: "set acc \<subseteq> set (wrapLines B lines acc)"
proof (induction lines arbitrary: acc)
  case Nil
  show ?case by simp
next
  case (Cons line rest)
  show ?case
  proof (cases "int (length line) > B")
    case True
    obtain ls' nl' where p: "packWords B (split 32 line) acc [] = (ls', nl')"
      by (cases "packWords B (split 32 line) acc []")
    from packWords_long[OF p] have "set acc \<subseteq> set (ls' @ [nl'])" by auto
    also have "\<dots> \<subseteq> set (wrapLines B rest (ls' @ [nl']))" by (rule Cons.IH)
    finally show ?thesis using True p by simp
  next
    case False
    have "set acc \<subseteq> set (acc @ [line])" by auto
    also have "\<dots> \<subseteq> set (wrapLines B rest (acc @ [line]))" by (rule Cons.IH)
    finally show ?thesis using False by simp
  qed
qed

lemma wrapLines_long:
  assumes "l \<in> set lines" and "w \<in> set (split 32 l)" and "B < int (length w)"
  shows "w \<in> set (wrapLines B lines acc)"
  using assms(1)
proof (induction lines arbitrary: acc)
  case Nil
  then show ?case by simp
next
  case (Cons line rest)
  show ?case
  proof (cases "l = line")
    case True
    from split_elem_length[OF assms(2)] assms(3) True have long: "int (length line) > B" by simp
    obtain ls' nl' where p: "packWords B (split 32 line) acc [] = (ls', nl')"
      by (cases "packWords B (split 32 line) acc []")
    from packWords_long[OF p] assms(2,3) True have "w \<in> set (ls' @ [nl'])" by auto
    with wrapLines_acc[of "ls' @ [nl']" B rest] have "w \<in> set (wrapLines B rest (ls' @ [nl']))"
      by blast
    with long p show ?thesis by simp
  next
    case False
    with Cons.prems have rest: "l \<in> set rest" by simp
    obtain ls' nl' where p: "packWords B (split 32 line) acc [] = (ls', nl')"
      by (cases "packWords B (split 32 line) acc []")
    show ?thesis using Cons.IH[OF rest] p by simp
  qed
qed

lemma packWords_short:
  assumes "packWords B words ls nl = (ls', nl')"
    and "\<forall>x \<in> set ls. int (length (trim x)) \<le> B" and "int (length (trim nl)) \<le> B"
    and "\<forall>w \<in> set words. int (length (trim w)) \<le> B"
  shows "(\<forall>x \<in> set ls'. int (length (trim x)) \<le> B) \<and> int (length (trim nl')) \<le> B"
  using assms
proof (induction words arbitrary: ls nl)
  case Nil
  then show ?case by simp
next
  case (Cons word words)
  have one: "int (length (str '' '')) = 1" by (simp add: str_def)
  from Cons.prems(4) have w: "int (length (trim word)) \<le> B"
    and ws: "\<forall>w \<in> set words. int (length (trim w)) \<le> B" by simp_all
  show ?case
  proof (cases "int (length nl) + 1 + int (length word) > B")
    case True
    with Cons.prems(1) have run: "packWords B words (ls @ [nl]) word = (ls', nl')"
      by (simp add: one)
    show ?thesis
      by (rule Cons.IH[OF run _ w ws]) (use Cons.prems(2,3) in auto)
  next
    case False
    show ?thesis
    proof (cases "nl = []")
      case True
      with False Cons.prems(1) have run: "packWords B words ls word = (ls', nl')"
        by (simp add: one)
      show ?thesis by (rule Cons.IH[OF run Cons.prems(2) w ws])
    next
      case ne: False
      with False Cons.prems(1) have run: "packWords B words ls (nl @ str '' '' @ word) = (ls', nl')"
        by (simp add: one)
      have "int (length (trim (nl @ str '' '' @ word))) \<le> int (length (nl @ str '' '' @ word))"
        using length_trim_le[of "nl @ str '' '' @ word"] by simp
      also have "\<dots> = int (length nl) + 1 + int (length word)"
        by (simp add: str_def)
      finally have j: "int (length (trim (nl @ str '' '' @ word))) \<le> B" using False by simp
      show ?thesis by (rule Cons.IH[OF run Cons.prems(2) j ws])
    qed
  qed
qed

lemma wrapLines_short:
  assumes "\<forall>x \<in> set acc. int (length (trim x)) \<le> B"
    and "\<forall>l \<in> set lines. \<forall>w \<in> set (split 32 l). int (length (trim w)) \<le> B"
  shows "\<forall>x \<in> set (wrapLines B lines acc). int (length (trim x)) \<le> B"
  using assms
proof (induction lines arbitrary: acc)
  case Nil
  then show ?case by simp
next
  case (Cons line rest)
  from Cons.prems(2) have here: "\<forall>w \<in> set (split 32 line). int (length (trim w)) \<le> B"
    and later: "\<forall>l \<in> set rest. \<forall>w \<in> set (split 32 l). int (length (trim w)) \<le> B" by simp_all
  show ?case
  proof (cases "int (length line) > B")
    case True
    obtain ls' nl' where p: "packWords B (split 32 line) acc [] = (ls', nl')"
      by (cases "packWords B (split 32 line) acc []")
    obtain w where "w \<in> set (split 32 line)"
      using split_not_Nil[of 32 line] by (cases "split 32 line") auto
    with here have "0 \<le> B" by fastforce
    then have e: "int (length (trim [])) \<le> B" by (simp add: trim_def)
    from packWords_short[OF p Cons.prems(1) e here]
    have "\<forall>x \<in> set (ls' @ [nl']). int (length (trim x)) \<le> B" by simp
    from Cons.IH[OF this later] True p show ?thesis by simp
  next
    case False
    have "int (length (trim line)) \<le> int (length line)" using length_trim_le[of line] by simp
    with False Cons.prems(1) have "\<forall>x \<in> set (acc @ [line]). int (length (trim x)) \<le> B" by auto
    from Cons.IH[OF this later] False show ?thesis by simp
  qed
qed

lemma comment_long:
  assumes "trim txt \<noteq> []" and "longestLineExceeds (commentLines (commentWidth cfg s) txt) (commentWidth cfg s)"
  shows "comment cfg txt s =
           js_block [iwriteLine (str ''// tslint:disable:max-line-length''),
                     writeCommentBlock (commentLines (commentWidth cfg s) txt),
                     iwriteLine (str ''// tslint:enable:max-line-length'')] s"
proof -
  from assms(1) have "txt \<noteq> []" by (auto simp: trim_def)
  with assms show ?thesis by (simp add: comment_def Let_def)
qed

lemma comment_short:
  assumes "trim txt \<noteq> []" and "\<not> longestLineExceeds (commentLines (commentWidth cfg s) txt) (commentWidth cfg s)"
  shows "comment cfg txt s = writeCommentBlock (commentLines (commentWidth cfg s) txt) s"
proof -
  from assms(1) have "txt \<noteq> []" by (auto simp: trim_def)
  with assms show ?thesis by (simp add: comment_def Let_def)
qed

section \<open>C9: over-long words in a comment\<close>

text \<open>
  Claim C9, as amended. The width is the configured maximum less the indent and the
  comment delimiters; the words are those of the text after the escaping of \<open>*/\<close> and
  of the documentation tags (each puts a zero-width joiner in), taken line by line and
  split at single spaces, and the length of a word is that of the word trimmed. For a
  text that is not blank: when some word is longer than the width, that word (irregular
  spaces replaced) is a line of the comment on its own, unbroken, and the comment is
  written between the two width-check markers; when no word is longer than the width,
  the comment is written with no marker. Measured on the text as given the claim
  fails: in the counterexample below the only word, \<open>@type\<close>, is as long as the width
  and no longer, the escaping makes it one longer, and the markers are written.
\<close>

theorem comment_width_markers:
  assumes "trim txt \<noteq> []"
  shows "(\<forall>l w. l \<in> set (splitLines (trim (escapeJsdocTags (escapeCommentEnd txt))))
              \<and> w \<in> set (split 32 l) \<and> commentWidth cfg s < int (length (trim w))
            \<longrightarrow> replaceIrregularSpaces (trim w) \<in> set (commentLines (commentWidth cfg s) txt)
                \<and> comment cfg txt s =
                    js_block [iwriteLine (str ''// tslint:disable:max-line-length''),
                              writeCommentBlock (commentLines (commentWidth cfg s) txt),
                              iwriteLine (str ''// tslint:enable:max-line-length'')] s)
       \<and> ((\<forall>l \<in> set (splitLines (trim (escapeJsdocTags (escapeCommentEnd txt)))).
              \<forall>w \<in> set (split 32 l). int (length (trim w)) \<le> commentWidth cfg s)
            \<longrightarrow> comment cfg txt s = writeCommentBlock (commentLines (commentWidth cfg s) txt) s)"
proof (intro conjI allI impI)
  fix l w
  let ?B = "commentWidth cfg s"
  let ?ls = "splitLines (trim (escapeJsdocTags (escapeCommentEnd txt)))"
  assume a: "l \<in> set ?ls \<and> w \<in> set (split 32 l) \<and> ?B < int (length (trim w))"
  then have l: "l \<in> set ?ls" and w: "w \<in> set (split 32 l)" and long: "?B < int (length (trim w))"
    by simp_all
  from long length_trim_le[of w] have raw: "?B < int (length w)" by simp
  from wrapLines_long[OF l w raw] have "w \<in> set (wrapLines ?B ?ls [])" .
  then show mem: "replaceIrregularSpaces (trim w) \<in> set (commentLines ?B txt)"
    by (simp add: commentLines_map)
  with long have "longestLineExceeds (commentLines ?B txt) ?B"
    by (auto simp: longestLineExceeds_def list_ex_iff intro!: bexI[of _ "replaceIrregularSpaces (trim w)"])
  from comment_long[OF assms this]
  show "comment cfg txt s =
          js_block [iwriteLine (str ''// tslint:disable:max-line-length''),
                    writeCommentBlock (commentLines ?B txt),
                    iwriteLine (str ''// tslint:enable:max-line-length'')] s" .
next
  let ?B = "commentWidth cfg s"
  let ?ls = "splitLines (trim (escapeJsdocTags (escapeCommentEnd txt)))"
  assume short: "\<forall>l \<in> set ?ls. \<forall>w \<in> set (split 32 l). int (length (trim w)) \<le> ?B"
  have "\<forall>x \<in> set (wrapLines ?B ?ls []). int (length (trim x)) \<le> ?B"
    by (rule wrapLines_short) (use short in simp_all)
  then have "\<not> longestLineExceeds (commentLines ?B txt) ?B"
    by (auto simp: longestLineExceeds_def list_ex_iff commentLines_map)
  from comment_short[OF assms this]
  show "comment cfg txt s = writeCommentBlock (commentLines ?B txt) s" .
qed

lemmas eval_comment =
  comment_def commentWidth_def commentLines_def trim_def isWhiteSpace_def longestLineExceeds_def
  writeCommentBlock_def irregularSpaces_def replaceChar_def jsdocCommentStart_def
  jsdocCommentEnd_def jsdocTags_def startsWith_def zeroWidthJoinerCharacter_def

theorem comment_escaped_word_counterexample:
  "commentWidth (exampleEnv\<lparr>maxLineLength := 12\<rparr>) initialWorld = 5
   \<and> splitLines (trim (str ''@type'')) = [str ''@type'']
   \<and> split 32 (str ''@type'') = [str ''@type'']
   \<and> int (length (str ''@type'')) = 5
   \<and> comment (exampleEnv\<lparr>maxLineLength := 12\<rparr>) (str ''@type'') initialWorld
     = (Return (),
        initialWorld\<lparr>out := str ''// tslint:disable:max-line-length\<newline>/**\<newline> *\<newline> * @''
                               @ zeroWidthJoinerCharacter
                               @ str ''type\<newline> */\<newline>// tslint:enable:max-line-length\<newline>''\<rparr>)"
  by (simp add: eval_comment exampleEnv_def js_when_def js_seq_def js_bind_def iwriteLine_def
      startIndentedLine_apply initialWorld_def tabString_def newLineString_def str_def)

theorem comment_width_markers_witness:
  "comment (exampleEnv\<lparr>maxLineLength := 27\<rparr>) (str ''see http://averyveryverylongword/x now'')
     initialWorld
   = (Return (),
      initialWorld\<lparr>out := str ''// tslint:disable:max-line-length\<newline>/**\<newline> * see\<newline> * http://averyveryverylongword/x\<newline> * now\<newline> */\<newline>// tslint:enable:max-line-length\<newline>''\<rparr>)
   \<and> comment (exampleEnv\<lparr>maxLineLength := 27\<rparr>) (str ''a comment of some short words'')
     initialWorld
   = (Return (),
      initialWorld\<lparr>out := str ''/**\<newline> * a comment of some\<newline> * short words\<newline> */\<newline>''\<rparr>)"
proof -
  let ?cfg = "exampleEnv\<lparr>maxLineLength := 27\<rparr>"
  let ?t1 = "str ''see http://averyveryverylongword/x now''"
  let ?t2 = "str ''a comment of some short words''"
  have B: "commentWidth ?cfg initialWorld = 20"
    by (simp add: commentWidth_def exampleEnv_def initialWorld_def tabString_def
        jsdocCommentStart_def jsdocCommentEnd_def str_def)
  have ne1: "trim ?t1 \<noteq> []" and ne2: "trim ?t2 \<noteq> []"
    by (simp_all add: trim_def isWhiteSpace_def str_def)
  have l1: "splitLines (trim (escapeJsdocTags (escapeCommentEnd ?t1))) = [?t1]"
    by (simp add: trim_def isWhiteSpace_def jsdocTags_def startsWith_def str_def)
  have w1: "str ''http://averyveryverylongword/x'' \<in> set (split 32 ?t1)"
    by (simp add: str_def)
  have long: "commentWidth ?cfg initialWorld < int (length (trim (str ''http://averyveryverylongword/x'')))"
    unfolding B by (simp add: trim_def isWhiteSpace_def str_def)
  have l2: "splitLines (trim (escapeJsdocTags (escapeCommentEnd ?t2))) = [?t2]"
    by (simp add: trim_def isWhiteSpace_def jsdocTags_def startsWith_def str_def)
  have short: "\<forall>l \<in> set (splitLines (trim (escapeJsdocTags (escapeCommentEnd ?t2)))).
                 \<forall>w \<in> set (split 32 l). int (length (trim w)) \<le> commentWidth ?cfg initialWorld"
    unfolding l2 B by (simp add: trim_def isWhiteSpace_def str_def)
  have c1: "commentLines 20 ?t1 = [str ''see'', str ''http://averyveryverylongword/x'', str ''now'']"
    by (simp add: commentLines_def trim_def isWhiteSpace_def irregularSpaces_def replaceChar_def
        jsdocTags_def startsWith_def str_def)
  have c2: "commentLines 20 ?t2 = [str ''a comment of some'', str ''short words'']"
    by (simp add: commentLines_def trim_def isWhiteSpace_def irregularSpaces_def replaceChar_def
        jsdocTags_def startsWith_def str_def)
  from comment_width_markers[OF ne1, of ?cfg initialWorld] l1 w1 long
  have e1: "comment ?cfg ?t1 initialWorld =
              js_block [iwriteLine (str ''// tslint:disable:max-line-length''),
                        writeCommentBlock (commentLines (commentWidth ?cfg initialWorld) ?t1),
                        iwriteLine (str ''// tslint:enable:max-line-length'')] initialWorld"
    by (metis list.set_intros(1))
  from comment_width_markers[OF ne2, of ?cfg initialWorld] short
  have e2: "comment ?cfg ?t2 initialWorld =
              writeCommentBlock (commentLines (commentWidth ?cfg initialWorld) ?t2) initialWorld"
    by blast
  show ?thesis
    unfolding e1 e2 B c1 c2
    by (simp add: writeCommentBlock_def jsdocCommentStart_def jsdocCommentEnd_def js_seq_def
        js_bind_def iwriteLine_def startIndentedLine_apply initialWorld_def tabString_def
        newLineString_def str_def)
qed

end
